theory Spec2Isabelle
  imports Complex_Main "HOL-Library.Word" "HOL-Library.Sublist"
begin

section \<open>JavaScript values\<close>

text \<open>
  A JavaScript string is a sequence of UTF-16 code units. String literals of the source
  are ASCII (apart from the two glyphs of \<open>formatValue\<close>) and are written through
  \<open>ascii\<close>.
\<close>

type_synonym jsstring = "16 word list"

definition ascii :: "string \<Rightarrow> jsstring" where
  "ascii s = map (\<lambda>c. of_nat (of_char c)) s"

text \<open>
  A number is a double: not-a-number, an infinity, or a finite value given by its exact
  rational value (\<open>+0\<close> and \<open>-0\<close> are both \<open>Finite 0\<close>; the two are
  indistinguishable to every operation modelled here).
\<close>

datatype jsnum = NaN | PosInf | NegInf | Finite rat

text \<open>
  The values that \<open>JSON.parse\<close> produces, and \<open>undefined\<close>. \<open>Obj kvs\<close> lists the
  own enumerable properties of a plain object in the order in which \<open>Object.keys\<close>
  reports them; a read of an own property returns the first binding of the key.
\<close>

datatype jsval =
    Undefined
  | Null
  | Bool bool
  | Num jsnum
  | Str jsstring
  | Arr "jsval list"
  | Obj "(jsstring \<times> jsval) list"

text \<open>ToBoolean: what \<open>if (v)\<close>, \<open>!v\<close> and \<open>v || w\<close> test.\<close>

fun truthy :: "jsval \<Rightarrow> bool" where
  "truthy Undefined = False"
| "truthy Null = False"
| "truthy (Bool b) = b"
| "truthy (Num NaN) = False"
| "truthy (Num (Finite q)) = (q \<noteq> 0)"
| "truthy (Num _) = True"
| "truthy (Str s) = (s \<noteq> [])"
| "truthy (Arr _) = True"
| "truthy (Obj _) = True"

text \<open>\<open>a || b\<close> on values.\<close>

definition js_or :: "jsval \<Rightarrow> jsval \<Rightarrow> jsval" where
  "js_or a b = (if truthy a then a else b)"

text \<open>
  What the program can throw: a value (\<open>throw v\<close>, or the rejection reason of a promise),
  or the TypeError that the runtime raises when a property of \<open>null\<close> or \<open>undefined\<close>
  is read, or when something that is not a function is called.
\<close>

datatype exn = Thrown jsval | TypeError

text \<open>
  Array indices as property keys: \<open>dec n\<close> is the decimal string of \<open>n\<close>, and
  \<open>array_index k\<close> recognises a key that is the canonical decimal string of an integer
  below \<open>2^32 - 1\<close>.
\<close>

function dec :: "nat \<Rightarrow> jsstring" where
  "dec n = (if n < 10 then [of_nat (48 + n)] else dec (n div 10) @ [of_nat (48 + n mod 10)])"
  by pat_completeness auto
termination
  by (relation "measure id") auto

definition is_digit :: "16 word \<Rightarrow> bool" where
  "is_digit c = (0x30 \<le> c \<and> c \<le> 0x39)"

definition array_index :: "jsstring \<Rightarrow> nat option" where
  "array_index k =
     (if k = [] \<or> \<not> list_all is_digit k \<or> (hd k = 0x30 \<and> length k > 1) then None
      else (let n = foldl (\<lambda>a c. 10 * a + (unat c - 48)) 0 k in
            if n < 2 ^ 32 - 1 then Some n else None))"

text \<open>
  \<open>v.k\<close> for the property names that the source writes out (\<open>detail\<close>,
  \<open>message\<close>, \<open>success\<close>, \<open>length\<close>, \<open>enabled\<close>, \<open>form_title\<close>,
  \<open>form_description\<close>, \<open>form_fields\<close>). None of them names a member that a value inherits from its
  prototype, so the read is a read of an own property. On \<open>null\<close> and \<open>undefined\<close>
  the read throws; a plain object holds what its bindings say; an array and a string
  hold \<open>length\<close> and their elements under the index keys; a boolean or a number
  holds nothing. The read \<open>row[header]\<close> of the table, whose key is computed, is
  \<open>row_member\<close> below.
\<close>

definition nth_or_undefined :: "jsval list \<Rightarrow> jsstring \<Rightarrow> jsval" where
  "nth_or_undefined xs k =
     (case array_index k of
        None \<Rightarrow> Undefined
      | Some i \<Rightarrow> if i < length xs then xs ! i else Undefined)"

fun get_prop :: "jsval \<Rightarrow> jsstring \<Rightarrow> exn + jsval" where
  "get_prop Undefined k = Inl TypeError"
| "get_prop Null k = Inl TypeError"
| "get_prop (Obj kvs) k = Inr (case map_of kvs k of None \<Rightarrow> Undefined | Some v \<Rightarrow> v)"
| "get_prop (Arr xs) k =
     Inr (if k = ascii ''length'' then Num (Finite (of_nat (length xs)))
          else nth_or_undefined xs k)"
| "get_prop (Str s) k =
     Inr (if k = ascii ''length'' then Num (Finite (of_nat (length s)))
          else nth_or_undefined (map (\<lambda>c. Str [c]) s) k)"
| "get_prop (Bool b) k = Inr Undefined"
| "get_prop (Num n) k = Inr Undefined"

section \<open>Webhook API client\<close>

text \<open>
  A settled promise: \<open>Inl\<close> the rejection reason, \<open>Inr\<close> the value. A response exposes
  \<open>res.ok\<close> and \<open>res.json()\<close>, which rejects when the body is not JSON.
\<close>

type_synonym 'a settled = "jsval + 'a"

record http_response =
  ok :: bool
  json :: "jsval settled"

text \<open>
  The four requests of the client. \<open>'f\<close> is the type of a \<open>File\<close>. The base URL, the
  method and the headers are fixed per endpoint; a request is identified by its endpoint
  and the data the caller supplies.
\<close>

datatype 'f request =
    GetConfig jsstring jsstring
  | PostInvoke jsstring jsstring "(jsstring \<times> jsval) list" "jsstring option"
  | PostInvokeWithFiles jsstring jsstring "(jsstring \<times> jsval) list" "'f list" "jsstring option"
  | GetModels jsstring

text \<open>
  The network: how the outside answers each request, and the requests sent so far.
\<close>

record 'f world =
  respond :: "'f request \<Rightarrow> http_response settled"
  sent :: "'f request list"

definition fetch :: "'f world \<Rightarrow> 'f request \<Rightarrow> http_response settled \<times> 'f world" where
  "fetch w req = (respond w req, w\<lparr>sent := sent w @ [req]\<rparr>)"

text \<open>
  The handler every client function chains on the fetch:
  \<^verbatim>\<open>.then(async (res) => { if (!res.ok) throw await res.json(); return res.json(); })\<close>
\<close>

definition then_json :: "http_response settled \<Rightarrow> jsval settled" where
  "then_json r =
     (case r of
        Inl e \<Rightarrow> Inl e
      | Inr res \<Rightarrow>
          (if \<not> ok res then (case json res of Inl e \<Rightarrow> Inl e | Inr v \<Rightarrow> Inl v)
           else json res))"

text \<open>
  \<open>getWebhookConfig\<close>: the catch handler stores \<open>err.detail\<close> and yields \<open>null\<close>; the
  function throws the stored value when it is truthy and returns the chain's value
  otherwise.
\<close>

definition getWebhookConfig ::
  "'f world \<Rightarrow> jsstring \<Rightarrow> jsstring \<Rightarrow> (exn + jsval) \<times> 'f world" where
  "getWebhookConfig w token modelId =
     (let (r, w') = fetch w (GetConfig token modelId) in
      ((case then_json r of
         Inr v \<Rightarrow> Inr v
       | Inl err \<Rightarrow>
           (case get_prop err (ascii ''detail'') of
              Inl e \<Rightarrow> Inl e
            | Inr d \<Rightarrow> if truthy d then Inl (Thrown d) else Inr Null)),
       w'))"

text \<open>
  The catch handler of both invoke functions:
  \<^verbatim>\<open>error = err.detail || err.message || 'Unknown error'; return null;\<close>
  followed by \<^verbatim>\<open>if (error) throw error; return res;\<close>
\<close>

definition invoke_result :: "jsval settled \<Rightarrow> exn + jsval" where
  "invoke_result s =
     (case s of
        Inr v \<Rightarrow> Inr v
      | Inl err \<Rightarrow>
          (case get_prop err (ascii ''detail'') of
             Inl e \<Rightarrow> Inl e
           | Inr d \<Rightarrow>
               (case get_prop err (ascii ''message'') of
                  Inl e \<Rightarrow> Inl e
                | Inr m \<Rightarrow>
                    (let error = js_or d (js_or m (Str (ascii ''Unknown error''))) in
                     if truthy error then Inl (Thrown error) else Inr Null))))"

definition invokeWebhook ::
  "'f world \<Rightarrow> jsstring \<Rightarrow> jsstring \<Rightarrow> (jsstring \<times> jsval) list \<Rightarrow> jsstring option
     \<Rightarrow> (exn + jsval) \<times> 'f world" where
  "invokeWebhook w token modelId formData chatId =
     (let (r, w') = fetch w (PostInvoke token modelId formData chatId) in
      (invoke_result (then_json r), w'))"

text \<open>
  \<open>invokeWebhookWithFiles\<close>: \<open>chat_id\<close> is appended to the multipart body only when
  \<open>chatId\<close> is truthy; every file is appended in order.
\<close>

definition invokeWebhookWithFiles ::
  "'f world \<Rightarrow> jsstring \<Rightarrow> jsstring \<Rightarrow> (jsstring \<times> jsval) list \<Rightarrow> 'f list
     \<Rightarrow> jsstring option \<Rightarrow> (exn + jsval) \<times> 'f world" where
  "invokeWebhookWithFiles w token modelId formData files chatId =
     (let chat = (case chatId of None \<Rightarrow> None | Some c \<Rightarrow> if c = [] then None else Some c);
          (r, w') = fetch w (PostInvokeWithFiles token modelId formData files chat) in
      (invoke_result (then_json r), w'))"

text \<open>
  \<open>getWebhookEnabledModels\<close>: as \<open>getWebhookConfig\<close>, with \<open>[]\<close> as the catch
  handler's value.
\<close>

definition getWebhookEnabledModels ::
  "'f world \<Rightarrow> jsstring \<Rightarrow> (exn + jsval) \<times> 'f world" where
  "getWebhookEnabledModels w token =
     (let (r, w') = fetch w (GetModels token) in
      ((case then_json r of
         Inr v \<Rightarrow> Inr v
       | Inl err \<Rightarrow>
           (case get_prop err (ascii ''detail'') of
              Inl e \<Rightarrow> Inl e
            | Inr d \<Rightarrow> if truthy d then Inl (Thrown d) else Inr (Arr []))),
       w'))"

text \<open>
  A request fails when the fetch rejects or the response's status is not a success
  status; \<open>caught\<close> is the value the catch handler then receives.
\<close>

definition request_failed :: "http_response settled \<Rightarrow> bool" where
  "request_failed r = (case r of Inl e \<Rightarrow> True | Inr res \<Rightarrow> \<not> ok res)"

definition non_success :: "http_response settled \<Rightarrow> bool" where
  "non_success r = (case r of Inl e \<Rightarrow> False | Inr res \<Rightarrow> \<not> ok res)"

definition caught :: "http_response settled \<Rightarrow> jsval" where
  "caught r = (case then_json r of Inl e \<Rightarrow> e | Inr v \<Rightarrow> Undefined)"

definition nullish :: "jsval \<Rightarrow> bool" where
  "nullish v = (v = Null \<or> v = Undefined)"

text \<open>\<open>err.detail\<close> and \<open>err.message\<close> of a caught value that is not nullish.\<close>

definition detail_of :: "jsval \<Rightarrow> jsval" where
  "detail_of err = (case get_prop err (ascii ''detail'') of Inl e \<Rightarrow> Undefined | Inr d \<Rightarrow> d)"

definition message_of :: "jsval \<Rightarrow> jsval" where
  "message_of err = (case get_prop err (ascii ''message'') of Inl e \<Rightarrow> Undefined | Inr m \<Rightarrow> m)"

text \<open>A response with the given status flag and JSON body, and the world that answers with it.\<close>

definition json_response :: "bool \<Rightarrow> jsval \<Rightarrow> http_response" where
  "json_response b v = \<lparr>ok = b, json = Inr v\<rparr>"

definition answering :: "http_response settled \<Rightarrow> 'f world" where
  "answering r = \<lparr>respond = (\<lambda>req. r), sent = []\<rparr>"

section \<open>Response renderer\<close>

datatype DataType = Table | KeyValue | ListType | Raw | Empty

text \<open>\<open>typeof v === 'object'\<close> and \<open>Array.isArray(v)\<close>\<close>

fun typeof_object :: "jsval \<Rightarrow> bool" where
  "typeof_object Null = True"
| "typeof_object (Arr _) = True"
| "typeof_object (Obj _) = True"
| "typeof_object _ = False"

fun is_array :: "jsval \<Rightarrow> bool" where
  "is_array (Arr _) = True"
| "is_array _ = False"

definition detectDataType :: "jsval \<Rightarrow> DataType" where
  "detectDataType data =
     (if \<not> truthy data then Empty
      else (case data of
              Arr (x # xs) \<Rightarrow> if typeof_object x \<and> x \<noteq> Null then Table else ListType
            | _ \<Rightarrow>
                if typeof_object data \<and> data \<noteq> Null \<and> \<not> is_array data then KeyValue
                else Raw))"

text \<open>
  \<open>Object.keys(v)\<close>: throws on \<open>null\<close> and \<open>undefined\<close>; the index keys of an
  array or a string; nothing for a boolean or a number.
\<close>

fun object_keys :: "jsval \<Rightarrow> exn + jsstring list" where
  "object_keys Undefined = Inl TypeError"
| "object_keys Null = Inl TypeError"
| "object_keys (Obj kvs) = Inr (map fst kvs)"
| "object_keys (Arr xs) = Inr (map dec [0..<length xs])"
| "object_keys (Str s) = Inr (map dec [0..<length s])"
| "object_keys (Bool b) = Inr []"
| "object_keys (Num n) = Inr []"

text \<open>
  A \<open>Set\<close> of strings, as the list of its elements in insertion order: \<open>add\<close> of an
  element already present changes nothing.
\<close>

definition set_add :: "jsstring list \<Rightarrow> jsstring \<Rightarrow> jsstring list" where
  "set_add allKeys key = (if key \<in> set allKeys then allKeys else allKeys @ [key])"

text \<open>The \<open>data.forEach\<close> loop of \<open>getTableHeaders\<close>; a throw ends it.\<close>

fun collect_keys :: "jsstring list \<Rightarrow> jsval list \<Rightarrow> exn + jsstring list" where
  "collect_keys allKeys [] = Inr allKeys"
| "collect_keys allKeys (item # items) =
     (case object_keys item of
        Inl e \<Rightarrow> Inl e
      | Inr ks \<Rightarrow> collect_keys (foldl set_add allKeys ks) items)"

text \<open>
  \<open>getTableHeaders\<close>: a falsy \<open>data\<close>, or one whose \<open>length\<close> is \<open>0\<close>, gives no
  header; a value that is not an array has no \<open>forEach\<close> to call.
\<close>

definition getTableHeaders :: "jsval \<Rightarrow> exn + jsstring list" where
  "getTableHeaders data =
     (if \<not> truthy data then Inr []
      else (case get_prop data (ascii ''length'') of
              Inl e \<Rightarrow> Inl e
            | Inr len \<Rightarrow>
                if len = Num (Finite 0) then Inr []
                else (case data of
                        Arr items \<Rightarrow> collect_keys [] items
                      | _ \<Rightarrow> Inl TypeError)))"

text \<open>
  What the read \<open>row[header]\<close> of a table row yields. A row is a plain object (the
  declared type of the rows is \<open>Record<string, unknown>\<close>): the read finds the row's
  own property of that name, and otherwise looks the name up in \<open>Object.prototype\<close>,
  whose members every plain object inherits. These members are functions of the
  runtime, apart from the accessor \<open>__proto__\<close>, whose value is the prototype object
  itself. A name found in neither place gives \<open>undefined\<close>.
\<close>

definition object_prototype_members :: "jsstring list" where
  "object_prototype_members =
     map ascii [''constructor'', ''__defineGetter__'', ''__defineSetter__'', ''hasOwnProperty'',
                ''__lookupGetter__'', ''__lookupSetter__'', ''isPrototypeOf'',
                ''propertyIsEnumerable'', ''toString'', ''valueOf'', ''__proto__'',
                ''toLocaleString'']"

datatype member = Data jsval | Inherited jsstring

definition row_member :: "(jsstring \<times> jsval) list \<Rightarrow> jsstring \<Rightarrow> member" where
  "row_member row header =
     (case map_of row header of
        Some v \<Rightarrow> Data v
      | None \<Rightarrow>
          if header \<in> set object_prototype_members then Inherited header else Data Undefined)"

text \<open>\<open>typeof value === 'object'\<close> on what a read yields.\<close>

definition member_is_object :: "member \<Rightarrow> bool" where
  "member_is_object value =
     (case value of
        Data v \<Rightarrow> typeof_object v
      | Inherited k \<Rightarrow> k = ascii ''__proto__'')"

text \<open>
  \<open>formatValue\<close>. \<open>JSON.stringify\<close> and \<open>String\<close> are the language's own and are
  taken as the parameters \<open>stringify\<close> and \<open>to_string\<close>. The glyphs are U+2713 and
  U+2717.
\<close>

definition formatValue ::
  "(member \<Rightarrow> jsstring) \<Rightarrow> (member \<Rightarrow> jsstring) \<Rightarrow> member \<Rightarrow> jsstring" where
  "formatValue stringify to_string value =
     (if value = Data Null \<or> value = Data Undefined then ascii ''-''
      else (case value of
              Data (Bool b) \<Rightarrow> if b then [0x2713] else [0x2717]
            | _ \<Rightarrow> if member_is_object value then stringify value else to_string value))"

text \<open>The reactive \<open>tableHeaders\<close> and one table cell, \<open>formatValue(row[header])\<close>.\<close>

definition tableHeaders :: "jsval \<Rightarrow> exn + jsstring list" where
  "tableHeaders data = (if detectDataType data = Table then getTableHeaders data else Inr [])"

definition table_cell ::
  "(member \<Rightarrow> jsstring) \<Rightarrow> (member \<Rightarrow> jsstring) \<Rightarrow> (jsstring \<times> jsval) list \<Rightarrow> jsstring
     \<Rightarrow> jsstring" where
  "table_cell stringify to_string row header =
     formatValue stringify to_string (row_member row header)"

text \<open>
  The column set the specification names: the keys of every row, each at its first
  occurrence.
\<close>

fun first_seen :: "jsstring list \<Rightarrow> jsstring list" where
  "first_seen [] = []"
| "first_seen (k # ks) = k # filter (\<lambda>k'. k' \<noteq> k) (first_seen ks)"

section \<open>Objects used as dictionaries\<close>

text \<open>
  \<open>Record<string, T>\<close>: the bindings in the order in which the object enumerates its
  keys (\<open>for ... in\<close>, \<open>Object.keys\<close>): index keys first, ascending, then the other
  keys in the order of their creation. The objects of this section are created as
  \<open>{}\<close> and written by assignment only. \<open>obj_get\<close> is the read of an own
  property.

  \<open>obj_set\<close> is \<open>o[k] = v\<close>. An assignment to the key \<open>__proto__\<close> goes to the
  accessor that the object inherits from \<open>Object.prototype\<close>: it creates no own
  property. When \<open>v\<close> is a string the accessor does nothing else; when \<open>v\<close> is an
  object (an array of files) it makes \<open>v\<close> the prototype of \<open>o\<close>, and what \<open>o\<close>
  then inherits is not part of this model, which keeps the own properties.
\<close>

type_synonym 'v obj = "(jsstring \<times> 'v) list"

definition obj_get :: "'v obj \<Rightarrow> jsstring \<Rightarrow> 'v option" where
  "obj_get ob k = map_of ob k"

definition obj_keys :: "'v obj \<Rightarrow> jsstring list" where
  "obj_keys ob = map fst ob"

fun obj_insert_index :: "nat \<Rightarrow> jsstring \<Rightarrow> 'v \<Rightarrow> 'v obj \<Rightarrow> 'v obj" where
  "obj_insert_index n k v [] = [(k, v)]"
| "obj_insert_index n k v ((k', v') # rest) =
     (case array_index k' of
        Some m \<Rightarrow>
          if m < n then (k', v') # obj_insert_index n k v rest else (k, v) # (k', v') # rest
      | None \<Rightarrow> (k, v) # (k', v') # rest)"

fun obj_replace :: "jsstring \<Rightarrow> 'v \<Rightarrow> 'v obj \<Rightarrow> 'v obj" where
  "obj_replace k v [] = []"
| "obj_replace k v ((k', v') # rest) =
     (if k' = k then (k', v) # rest else (k', v') # obj_replace k v rest)"

definition obj_set :: "'v obj \<Rightarrow> jsstring \<Rightarrow> 'v \<Rightarrow> 'v obj" where
  "obj_set ob k v =
     (if k = ascii ''__proto__'' then ob
      else if k \<in> set (obj_keys ob) then obj_replace k v ob
      else (case array_index k of
              Some n \<Rightarrow> obj_insert_index n k v ob
            | None \<Rightarrow> ob @ [(k, v)]))"

section \<open>Form modal\<close>

datatype field_type = TextField | NumberField | DateField | SelectField | TextareaField | FileField

record WebhookFormField =
  ff_name :: jsstring
  ff_label :: jsstring
  ff_type :: field_type
  ff_required :: bool
  ff_placeholder :: "jsstring option"
  ff_options :: "jsstring list option"
  ff_default :: "jsstring option"
  ff_accept :: "jsstring option"
  ff_multiple :: "bool option"

text \<open>
  The state of one modal: the props \<open>show\<close> (here \<open>shown\<close>), \<open>modelId\<close>,
  \<open>formFields\<close>, \<open>chatId\<close> and the local variables. \<open>formFields\<close> is an array, so
  it is truthy. \<open>formData\<close> is declared \<open>Record<string, string>\<close>; it holds what
  the inputs bound to it store, which for \<open><input type="number">\<close> is a number, so its
  values are values of the language.
\<close>

record 'f modal =
  shown :: bool
  modelId :: jsstring
  formFields :: "WebhookFormField list"
  chatId :: "jsstring option"
  formData :: "jsval obj"
  fileData :: "'f list obj"
  loading :: bool
  errors :: "jsstring obj"

text \<open>\<open>$: hasFileFields = formFields.some((f) => f.type === 'file')\<close>\<close>

definition hasFileFields :: "'f modal \<Rightarrow> bool" where
  "hasFileFields st = list_ex (\<lambda>f. ff_type f = FileField) (formFields st)"

text \<open>\<open>field.default || ''\<close>\<close>

definition default_or_empty :: "WebhookFormField \<Rightarrow> jsstring" where
  "default_or_empty f = (case ff_default f of None \<Rightarrow> [] | Some d \<Rightarrow> if d \<noteq> [] then d else [])"

text \<open>
  No field of the schema is named as a member of \<open>Object.prototype\<close>. The reads
  \<open>formData[field.name]\<close>, \<open>fileData[field.name]\<close> and \<open>errors[field.name]\<close>
  are modelled as reads of own properties (\<open>obj_get\<close>), which is what they are for
  such a schema.
\<close>

definition plain_names :: "WebhookFormField list \<Rightarrow> bool" where
  "plain_names fs = (\<forall>f \<in> set fs. ff_name f \<notin> set object_prototype_members)"

text \<open>
  The reactive block \<open>$: if (show && formFields) { ... }\<close>, which runs whenever
  \<open>show\<close> or \<open>formFields\<close> changes: an assignment of the value that a boolean
  variable already has changes nothing, an assignment of an array always counts as a
  change. \<open>init_field\<close> is the body of its loop.
\<close>

definition init_field ::
  "jsval obj \<times> 'f list obj \<Rightarrow> WebhookFormField \<Rightarrow> jsval obj \<times> 'f list obj" where
  "init_field acc f =
     (case acc of (fd, fl) \<Rightarrow>
        if ff_type f = FileField then (fd, obj_set fl (ff_name f) [])
        else (obj_set fd (ff_name f) (Str (default_or_empty f)), fl))"

definition init_form :: "'f modal \<Rightarrow> 'f modal" where
  "init_form st =
     (if shown st then
        (case foldl init_field ([], []) (formFields st) of (fd, fl) \<Rightarrow>
           st\<lparr>formData := fd, fileData := fl, errors := []\<rparr>)
      else st)"

definition set_show :: "bool \<Rightarrow> 'f modal \<Rightarrow> 'f modal" where
  "set_show b st = (if shown st = b then st else init_form (st\<lparr>shown := b\<rparr>))"

definition set_formFields :: "WebhookFormField list \<Rightarrow> 'f modal \<Rightarrow> 'f modal" where
  "set_formFields fs st = init_form (st\<lparr>formFields := fs\<rparr>)"

text \<open>
  \<open>bind:value={formData[field.name]}\<close>: the user edits an input. A text input, a
  textarea, a select and a date input store the string entered. The binding of
  \<open><input type="number">\<close> stores the number entered, and \<open>null\<close> when the input is
  empty.
\<close>

definition input_text :: "jsstring \<Rightarrow> jsstring \<Rightarrow> 'f modal \<Rightarrow> 'f modal" where
  "input_text k v st = st\<lparr>formData := obj_set (formData st) k (Str v)\<rparr>"

definition input_number :: "jsstring \<Rightarrow> rat option \<Rightarrow> 'f modal \<Rightarrow> 'f modal" where
  "input_number k v st =
     st\<lparr>formData := obj_set (formData st) k
          (case v of None \<Rightarrow> Null | Some q \<Rightarrow> Num (Finite q))\<rparr>"

text \<open>
  \<open>handleFileChange\<close>: \<open>files\<close> is \<open>input.files\<close>, absent when it is \<open>null\<close>.
\<close>

definition handleFileChange :: "jsstring \<Rightarrow> 'f list option \<Rightarrow> bool \<Rightarrow> 'f modal \<Rightarrow> 'f modal" where
  "handleFileChange fieldName files multiple st =
     (case files of
        None \<Rightarrow> st
      | Some newFiles \<Rightarrow>
          if multiple then
            st\<lparr>fileData := obj_set (fileData st) fieldName
                 ((case obj_get (fileData st) fieldName of None \<Rightarrow> [] | Some old \<Rightarrow> old) @ newFiles)\<rparr>
          else st\<lparr>fileData := obj_set (fileData st) fieldName newFiles\<rparr>)"

text \<open>ECMAScript white space and line terminators, which \<open>trim\<close> removes at both ends.\<close>

definition is_ws :: "16 word \<Rightarrow> bool" where
  "is_ws c =
     (c \<in> set [0x09, 0x0A, 0x0B, 0x0C, 0x0D, 0x20, 0xA0, 0x1680, 0x2028, 0x2029, 0x202F,
               0x205F, 0x3000, 0xFEFF]
      \<or> (0x2000 \<le> c \<and> c \<le> 0x200A))"

definition trim :: "jsstring \<Rightarrow> jsstring" where
  "trim s = rev (dropWhile is_ws (rev (dropWhile is_ws s)))"

text \<open>
  The two tests of \<open>validateForm\<close> and the message it stores.
  \<open>!formData[field.name]?.trim()\<close> is true for an absent or nullish value, tests the
  trimmed string for a string, and throws for any other value, which has no \<open>trim\<close>
  to call.
\<close>

definition no_files :: "'f modal \<Rightarrow> WebhookFormField \<Rightarrow> bool" where
  "no_files st f =
     (case obj_get (fileData st) (ff_name f) of None \<Rightarrow> True | Some fs \<Rightarrow> fs = [])"

definition blank_value :: "'f modal \<Rightarrow> WebhookFormField \<Rightarrow> exn + bool" where
  "blank_value st f =
     (case obj_get (formData st) (ff_name f) of
        None \<Rightarrow> Inr True
      | Some Undefined \<Rightarrow> Inr True
      | Some Null \<Rightarrow> Inr True
      | Some (Str v) \<Rightarrow> Inr (trim v = [])
      | Some _ \<Rightarrow> Inl TypeError)"

text \<open>
  A field fails validation when it is required and, for a file field, no file is
  selected, or, for any other field, the value is absent, nullish, or a string whose
  trimmed value is empty.
\<close>

definition field_fails :: "'f modal \<Rightarrow> WebhookFormField \<Rightarrow> bool" where
  "field_fails st f =
     (ff_required f \<and>
      (if ff_type f = FileField then no_files st f else blank_value st f = Inr True))"

text \<open>The values of the required fields that are not file fields are strings or absent.\<close>

definition text_valued :: "'f modal \<Rightarrow> bool" where
  "text_valued st =
     (\<forall>f \<in> set (formFields st). ff_required f \<and> ff_type f \<noteq> FileField \<longrightarrow>
        blank_value st f \<noteq> Inl TypeError)"

definition required_message :: "WebhookFormField \<Rightarrow> jsstring" where
  "required_message f = ff_label f @ ascii '' is required''"

definition validate_field ::
  "'f modal \<Rightarrow> jsstring obj \<times> bool \<Rightarrow> WebhookFormField \<Rightarrow> exn + jsstring obj \<times> bool" where
  "validate_field st acc f =
     (case acc of (errs, isValid) \<Rightarrow>
        if ff_required f then
          (if ff_type f = FileField then
             (if no_files st f then Inr (obj_set errs (ff_name f) (required_message f), False)
              else Inr (errs, isValid))
           else
             (case blank_value st f of
                Inl e \<Rightarrow> Inl e
              | Inr blank \<Rightarrow>
                  if blank then Inr (obj_set errs (ff_name f) (required_message f), False)
                  else Inr (errs, isValid)))
        else Inr (errs, isValid))"

text \<open>
  The loop of \<open>validateForm\<close>: a throw ends it and leaves in \<open>errors\<close> what was stored
  before.
\<close>

fun validate_loop ::
  "'f modal \<Rightarrow> WebhookFormField list \<Rightarrow> jsstring obj \<times> bool \<Rightarrow> jsstring obj \<times> (exn + bool)" where
  "validate_loop st [] acc = (fst acc, Inr (snd acc))"
| "validate_loop st (f # fs) acc =
     (case validate_field st acc f of
        Inl e \<Rightarrow> (fst acc, Inl e)
      | Inr acc' \<Rightarrow> validate_loop st fs acc')"

definition validateForm :: "'f modal \<Rightarrow> 'f modal \<times> (exn + bool)" where
  "validateForm st =
     (case validate_loop st (formFields st) ([], True) of (errs, r) \<Rightarrow>
        (st\<lparr>errors := errs\<rparr>, r))"

text \<open>What the modal does to the outside apart from the network.\<close>

datatype effect =
    DispatchSuccess jsval
  | DispatchClose
  | ToastSuccess jsval
  | ToastError jsval
  | Rejected exn

text \<open>
  The part of \<open>handleSubmit\<close> after the call: the \<open>try\<close> body from
  \<open>if (response.success)\<close> on, and the \<open>catch\<close> clause.
\<close>

definition on_failure :: "exn \<Rightarrow> effect list" where
  "on_failure e =
     [ToastError (case e of
                    Thrown (Str s) \<Rightarrow> Str s
                  | _ \<Rightarrow> Str (ascii ''Failed to execute workflow''))]"

definition on_response :: "'f modal \<Rightarrow> jsval \<Rightarrow> 'f modal \<times> effect list" where
  "on_response st response =
     (case get_prop response (ascii ''success'') of
        Inl e \<Rightarrow> (st, on_failure e)
      | Inr ok_flag \<Rightarrow>
          (case get_prop response (ascii ''message'') of
             Inl e \<Rightarrow> (st, on_failure e)
           | Inr m \<Rightarrow>
               if truthy ok_flag then
                 (set_show False st,
                  [DispatchSuccess response,
                   ToastSuccess (js_or m (Str (ascii ''Workflow executed successfully'')))])
               else (st, [ToastError (js_or m (Str (ascii ''Workflow failed'')))])))"

text \<open>\<open>chatId || undefined\<close>\<close>

definition chat_or_undefined :: "jsstring option \<Rightarrow> jsstring option" where
  "chat_or_undefined c = (case c of None \<Rightarrow> None | Some x \<Rightarrow> if x \<noteq> [] then Some x else None)"

text \<open>
  \<open>handleSubmit\<close>. \<open>token\<close> is \<open>localStorage.token\<close>. The result is the new state,
  the network after the call, and the effects raised. \<open>validateForm\<close> is called outside
  the \<open>try\<close> block: when it throws, the promise of the handler rejects and nothing
  else happens.
\<close>

definition handleSubmit ::
  "'f world \<Rightarrow> jsstring \<Rightarrow> 'f modal \<Rightarrow> 'f modal \<times> 'f world \<times> effect list" where
  "handleSubmit w token st =
     (case validateForm st of
        (st1, Inl e) \<Rightarrow> (st1, w, [Rejected e])
      | (st1, Inr isValid) \<Rightarrow>
        if \<not> isValid then (st1, w, [])
        else
          (let st2 = st1\<lparr>loading := True\<rparr>;
               (response, w') =
                 (if hasFileFields st2 then
                    (let allFiles = concat (map snd (fileData st2)) in
                     invokeWebhookWithFiles w token (modelId st2) (formData st2) allFiles
                       (chat_or_undefined (chatId st2)))
                  else
                    invokeWebhook w token (modelId st2) (formData st2)
                      (chat_or_undefined (chatId st2)));
               (st3, effs) =
                 (case response of
                    Inl e \<Rightarrow> (st2, on_failure e)
                  | Inr v \<Rightarrow> on_response st2 v)
           in (st3\<lparr>loading := False\<rparr>, w', effs)))"

definition handleClose :: "'f modal \<Rightarrow> 'f modal \<times> effect list" where
  "handleClose st = (set_show False st, [DispatchClose])"

text \<open>
  \<open>removeFile\<close>: \<open>filter\<close> is called on \<open>fileData[fieldName]\<close>, which throws when
  the key is absent.
\<close>

definition remove_at :: "nat \<Rightarrow> 'a list \<Rightarrow> 'a list" where
  "remove_at i xs = map snd (filter (\<lambda>(j, x). j \<noteq> i) (zip [0..<length xs] xs))"

definition removeFile :: "jsstring \<Rightarrow> nat \<Rightarrow> 'f modal \<Rightarrow> exn + 'f modal" where
  "removeFile fieldName i st =
     (case obj_get (fileData st) fieldName of
        None \<Rightarrow> Inl TypeError
      | Some fs \<Rightarrow> Inr (st\<lparr>fileData := obj_set (fileData st) fieldName (remove_at i fs)\<rparr>))"

section \<open>Slash-command palette\<close>

record WebhookModel =
  wm_id :: jsstring
  wm_name :: jsstring
  wm_slash_command :: "jsstring option"
  wm_form_title :: "jsstring option"

record palette =
  query :: jsstring
  webhooks :: "WebhookModel list"
  selectedIdx :: int
  filteredItems :: "WebhookModel list"

text \<open>
  \<open>toLowerCase\<close> and \<open>localeCompare\<close> are the language's own and are taken as the
  parameters \<open>lower\<close> and \<open>cmp\<close>. \<open>includes\<close> is the test for a contiguous
  substring. \<open>sort\<close> is stable: an element goes before the first one it does not
  follow.
\<close>

definition matches :: "(jsstring \<Rightarrow> jsstring) \<Rightarrow> jsstring \<Rightarrow> WebhookModel \<Rightarrow> bool" where
  "matches lower q w =
     (let command = (case wm_slash_command w of None \<Rightarrow> [] | Some c \<Rightarrow> lower c);
          name = lower (wm_name w);
          q' = lower q
      in sublist q' command \<or> sublist q' name)"

fun insert_by :: "('a \<Rightarrow> 'a \<Rightarrow> int) \<Rightarrow> 'a \<Rightarrow> 'a list \<Rightarrow> 'a list" where
  "insert_by c x [] = [x]"
| "insert_by c x (y # ys) = (if c x y \<le> 0 then x # y # ys else y # insert_by c x ys)"

definition sort_by :: "('a \<Rightarrow> 'a \<Rightarrow> int) \<Rightarrow> 'a list \<Rightarrow> 'a list" where
  "sort_by c xs = foldr (insert_by c) xs []"

definition filter_items ::
  "(jsstring \<Rightarrow> jsstring) \<Rightarrow> (jsstring \<Rightarrow> jsstring \<Rightarrow> int) \<Rightarrow> jsstring \<Rightarrow> WebhookModel list
     \<Rightarrow> WebhookModel list" where
  "filter_items lower cmp q ws =
     sort_by (\<lambda>a b. cmp (wm_name a) (wm_name b)) (filter (matches lower q) ws)"



definition set_webhooks ::
  "(jsstring \<Rightarrow> jsstring) \<Rightarrow> (jsstring \<Rightarrow> jsstring \<Rightarrow> int) \<Rightarrow> WebhookModel list \<Rightarrow> palette
     \<Rightarrow> palette" where
  "set_webhooks lower cmp ws st =
     (let st1 = st\<lparr>webhooks := ws\<rparr>
      in st1\<lparr>filteredItems := filter_items lower cmp (query st1) (webhooks st1)\<rparr>)"




section \<open>Workflow discovery menu\<close>

text \<open>
  The state of a mounted menu: the variables \<open>show\<close>, \<open>loading\<close> and
  \<open>workflows\<close>, and the calls of \<open>loadWorkflows\<close> that are suspended at their
  \<open>await\<close>, oldest first, each with the outcome of its
  \<open>getWebhookEnabledModels\<close> call.
\<close>

record menu =
  menu_show :: bool
  menu_loading :: bool
  workflows :: jsval
  awaited :: "(exn + jsval) list"

definition initial_menu :: menu where
  "initial_menu =
     \<lparr>menu_show = False, menu_loading = False, workflows = Arr [], awaited = []\<rparr>"

text \<open>
  \<open>v > 0\<close>: the operand is converted to a number. The conversion of a string, and of
  an array through its string, is the language's own and is taken as the parameter
  \<open>coerce\<close>.
\<close>

definition to_number :: "(jsval \<Rightarrow> jsnum) \<Rightarrow> jsval \<Rightarrow> jsnum" where
  "to_number coerce v =
     (case v of
        Num n \<Rightarrow> n
      | Undefined \<Rightarrow> NaN
      | Null \<Rightarrow> Finite 0
      | Bool b \<Rightarrow> Finite (if b then 1 else 0)
      | Obj kvs \<Rightarrow> NaN
      | _ \<Rightarrow> coerce v)"

definition gt_zero :: "(jsval \<Rightarrow> jsnum) \<Rightarrow> jsval \<Rightarrow> bool" where
  "gt_zero coerce v =
     (case to_number coerce v of
        Finite q \<Rightarrow> 0 < q
      | PosInf \<Rightarrow> True
      | _ \<Rightarrow> False)"

text \<open>
  \<open>loadWorkflows\<close> is asynchronous. Its call runs the guard, sets \<open>loading\<close> and
  sends the request, and is then suspended at the \<open>await\<close>; the menu goes on
  handling events, and the rest of the function (\<open>loadWorkflows_resume\<close>) runs when
  the awaited promise has settled. The world fixes the answer to a request, so the
  outcome is recorded with the suspended call at the moment the request is sent. The
  reactive statement calls \<open>loadWorkflows\<close> without awaiting it: a throw of the guard
  \<open>workflows.length > 0\<close> is an unhandled rejection and leaves the state as it is.
\<close>

definition loadWorkflows ::
  "(jsval \<Rightarrow> jsnum) \<Rightarrow> 'f world \<Rightarrow> jsstring \<Rightarrow> menu \<Rightarrow> menu \<times> 'f world" where
  "loadWorkflows coerce w token st =
     (case get_prop (workflows st) (ascii ''length'') of
        Inl e \<Rightarrow> (st, w)
      | Inr len \<Rightarrow>
          if gt_zero coerce len then (st, w)
          else
            (let (r, w') = getWebhookEnabledModels w token
             in (st\<lparr>menu_loading := True, awaited := awaited st @ [r]\<rparr>, w')))"

definition loadWorkflows_resume :: "menu \<Rightarrow> menu" where
  "loadWorkflows_resume st =
     (case awaited st of
        [] \<Rightarrow> st
      | r # rest \<Rightarrow>
          (let st1 = (case r of
                        Inr v \<Rightarrow> st\<lparr>workflows := v\<rparr>
                      | Inl e \<Rightarrow> st\<lparr>workflows := Arr []\<rparr>)
           in st1\<lparr>menu_loading := False, awaited := rest\<rparr>))"

datatype menu_effect = WorkflowSelected jsstring jsval jsval jsval

text \<open>
  \<open>selectWorkflow\<close>: the callback receives the model id, the form title, the form
  description and the form fields.
\<close>

definition selectWorkflow ::
  "'f world \<Rightarrow> jsstring \<Rightarrow> WebhookModel \<Rightarrow> menu \<Rightarrow> menu \<times> 'f world \<times> menu_effect list" where
  "selectWorkflow w token workflow st =
     (let (r, w') = getWebhookConfig w token (wm_id workflow) in
      (case r of
         Inl e \<Rightarrow> (st, w', [])
       | Inr config \<Rightarrow>
           (case get_prop config (ascii ''enabled'') of
              Inl e \<Rightarrow> (st, w', [])
            | Inr enabled \<Rightarrow>
                if \<not> truthy enabled then (st, w', [])
                else
                  (case (get_prop config (ascii ''form_title''),
                         get_prop config (ascii ''form_description''),
                         get_prop config (ascii ''form_fields'')) of
                     (Inr title, Inr description, Inr form_fields) \<Rightarrow>
                       (st\<lparr>menu_show := False\<rparr>, w',
                        [WorkflowSelected (wm_id workflow)
                           (js_or title (js_or (Str (wm_name workflow)) (Str (ascii ''Workflow Form''))))
                           (js_or description (Str []))
                           (js_or form_fields (Arr []))])
                   | _ \<Rightarrow> (st, w', [])))))"

text \<open>
  The life of a mounted menu: it is opened (\<open>show\<close> goes from false to true, which
  runs \<open>$: if (show) { loadWorkflows(); }\<close>), closed, an entry is selected, or the
  promise that the oldest suspended \<open>loadWorkflows\<close> awaits settles. The suspended
  calls all await the answer to the same request, so the order in which they resume
  makes no difference. \<open>selectWorkflow\<close> is run to its end in one step: it neither
  reads nor writes \<open>workflows\<close>, and it sends no listing request.
\<close>

datatype menu_event = Open | Close | Select WebhookModel | Settled

definition menu_step ::
  "(jsval \<Rightarrow> jsnum) \<Rightarrow> jsstring \<Rightarrow> menu \<times> 'f world \<Rightarrow> menu_event \<Rightarrow> menu \<times> 'f world" where
  "menu_step coerce token s ev =
     (case s of (st, w) \<Rightarrow>
        (case ev of
           Open \<Rightarrow>
             if menu_show st then (st, w)
             else loadWorkflows coerce w token (st\<lparr>menu_show := True\<rparr>)
         | Close \<Rightarrow> (st\<lparr>menu_show := False\<rparr>, w)
         | Select workflow \<Rightarrow>
             (case selectWorkflow w token workflow st of (st', w', effs) \<Rightarrow> (st', w'))
         | Settled \<Rightarrow> (loadWorkflows_resume st, w)))"

definition menu_run ::
  "(jsval \<Rightarrow> jsnum) \<Rightarrow> jsstring \<Rightarrow> menu \<times> 'f world \<Rightarrow> menu_event list \<Rightarrow> menu \<times> 'f world" where
  "menu_run coerce token s evs = foldl (menu_step coerce token) s evs"

text \<open>The number of calls of the listing endpoint so far.\<close>

fun is_listing :: "'f request \<Rightarrow> bool" where
  "is_listing (GetModels t) = True"
| "is_listing _ = False"

definition listing_calls :: "'f world \<Rightarrow> nat" where
  "listing_calls w = length (filter is_listing (sent w))"

text \<open>
  An outcome of \<open>getWebhookEnabledModels\<close> that leaves the cached list empty: the
  empty list, or a throw (which \<open>loadWorkflows\<close> catches).
\<close>

definition leaves_empty :: "exn + jsval \<Rightarrow> bool" where
  "leaves_empty r = (case r of Inl e \<Rightarrow> True | Inr v \<Rightarrow> v = Arr [])"

section \<open>Stand-ins for concrete runs\<close>



definition nan_coerce :: "jsval \<Rightarrow> jsnum" where
  "nan_coerce v = NaN"

definition no_text :: "member \<Rightarrow> jsstring" where
  "no_text value = []"

text \<open>
  \<open>String\<close> on what a read yields, for the values the runs below apply it to: a
  string is itself, and a function of the runtime gives its source text. The member
  \<open>constructor\<close> of \<open>Object.prototype\<close> is the function \<open>Object\<close>; the other
  functions are named as their property.
\<close>

definition runtime_string :: "member \<Rightarrow> jsstring" where
  "runtime_string value =
     (case value of
        Inherited k \<Rightarrow>
          ascii ''function '' @ (if k = ascii ''constructor'' then ascii ''Object'' else k)
            @ ascii ''() { [native code] }''
      | Data (Str s) \<Rightarrow> s
      | Data v \<Rightarrow> [])"


text \<open>
  Field descriptors with the optional properties absent, and a modal as it is created
  (hidden, with nothing entered).
\<close>

definition text_field :: "string \<Rightarrow> string \<Rightarrow> bool \<Rightarrow> WebhookFormField" where
  "text_field n l r =
     \<lparr>ff_name = ascii n, ff_label = ascii l, ff_type = TextField, ff_required = r,
      ff_placeholder = None, ff_options = None, ff_default = None, ff_accept = None,
      ff_multiple = None\<rparr>"

definition number_field :: "string \<Rightarrow> string \<Rightarrow> bool \<Rightarrow> WebhookFormField" where
  "number_field n l r =
     \<lparr>ff_name = ascii n, ff_label = ascii l, ff_type = NumberField, ff_required = r,
      ff_placeholder = None, ff_options = None, ff_default = None, ff_accept = None,
      ff_multiple = None\<rparr>"

definition file_field :: "string \<Rightarrow> string \<Rightarrow> bool \<Rightarrow> WebhookFormField" where
  "file_field n l r =
     \<lparr>ff_name = ascii n, ff_label = ascii l, ff_type = FileField, ff_required = r,
      ff_placeholder = None, ff_options = None, ff_default = None, ff_accept = None,
      ff_multiple = None\<rparr>"

definition new_modal :: "jsstring \<Rightarrow> WebhookFormField list \<Rightarrow> 'f modal" where
  "new_modal m fs =
     \<lparr>shown = False, modelId = m, formFields = fs, chatId = None, formData = [],
      fileData = [], loading = False, errors = []\<rparr>"

section \<open>Properties of the API client\<close>

lemma get_prop_not_nullish:
  "\<not> nullish err \<Longrightarrow>
     get_prop err k = Inr (case get_prop err k of Inl e \<Rightarrow> Undefined | Inr v \<Rightarrow> v)"
  by (cases err) (simp_all add: nullish_def)

lemma then_json_failed: "request_failed r \<Longrightarrow> then_json r = Inl (caught r)"
  by (auto simp: request_failed_def then_json_def caught_def split: sum.splits)

lemma non_success_failed: "non_success r \<Longrightarrow> request_failed r"
  by (auto simp: non_success_def request_failed_def split: sum.splits)

lemma truthy_detail_not_nullish: "truthy (detail_of err) \<Longrightarrow> \<not> nullish err"
  by (auto simp: detail_of_def nullish_def)

text \<open>
  Claim C1, as the code has it. When the request of \<open>getWebhookEnabledModels\<close> fails
  (the fetch rejects, or the status is not a success status) and the caught value is not
  \<open>null\<close>, the function returns the empty list exactly when the caught value carries
  no truthy \<open>detail\<close>; when it carries one, the function throws that detail to the
  caller.
\<close>

theorem getWebhookEnabledModels_failure:
  assumes "request_failed (respond w (GetModels token))"
    and "\<not> nullish (caught (respond w (GetModels token)))"
  shows "fst (getWebhookEnabledModels w token) =
           (if truthy (detail_of (caught (respond w (GetModels token))))
            then Inl (Thrown (detail_of (caught (respond w (GetModels token)))))
            else Inr (Arr []))"
proof -
  let ?err = "caught (respond w (GetModels token))"
  have t: "then_json (respond w (GetModels token)) = Inl ?err"
    using assms(1) by (rule then_json_failed)
  have g: "get_prop ?err (ascii ''detail'') = Inr (detail_of ?err)"
    using get_prop_not_nullish [OF assms(2)] by (simp add: detail_of_def)
  show ?thesis
    by (simp add: getWebhookEnabledModels_def fetch_def t g)
qed

text \<open>A network failure (the fetch rejects with an error that has a message only) gives \<open>[]\<close>.\<close>

theorem getWebhookEnabledModels_failure_witness:
  "request_failed (respond (answering (Inl (Obj [(ascii ''message'', Str (ascii ''Failed to fetch''))])) :: unit world) (GetModels (ascii ''token'')))
   \<and> \<not> nullish (caught (respond (answering (Inl (Obj [(ascii ''message'', Str (ascii ''Failed to fetch''))])) :: unit world) (GetModels (ascii ''token''))))
   \<and> fst (getWebhookEnabledModels (answering (Inl (Obj [(ascii ''message'', Str (ascii ''Failed to fetch''))])) :: unit world) (ascii ''token'')) = Inr (Arr [])"
  using getWebhookEnabledModels_failure [of "answering (Inl (Obj [(ascii ''message'', Str (ascii ''Failed to fetch''))])) :: unit world" "ascii ''token''"]
  by (simp add: answering_def request_failed_def caught_def then_json_def nullish_def detail_of_def ascii_def)

text \<open>
  Against C1 as stated: a 500 response whose body is
  \<open>{"detail": "Internal Server Error"}\<close> makes the function throw the detail.
\<close>

theorem getWebhookEnabledModels_throws_detail:
  "request_failed (Inr (json_response False (Obj [(ascii ''detail'', Str (ascii ''Internal Server Error''))])))
   \<and> fst (getWebhookEnabledModels
          (answering (Inr (json_response False (Obj [(ascii ''detail'', Str (ascii ''Internal Server Error''))]))) :: unit world)
          (ascii ''token''))
     = Inl (Thrown (Str (ascii ''Internal Server Error'')))"
  by (simp add: getWebhookEnabledModels_def fetch_def answering_def then_json_def json_response_def
      request_failed_def ascii_def)

text \<open>
  When the response of \<open>getWebhookConfig\<close> has a non-success status and its body carries
  a truthy \<open>detail\<close>, the function throws that detail to the caller and returns no
  value.
\<close>

theorem getWebhookConfig_throws_detail:
  assumes "non_success (respond w (GetConfig token mid))"
    and "truthy (detail_of (caught (respond w (GetConfig token mid))))"
  shows "fst (getWebhookConfig w token mid) =
           Inl (Thrown (detail_of (caught (respond w (GetConfig token mid)))))"
proof -
  let ?err = "caught (respond w (GetConfig token mid))"
  have t: "then_json (respond w (GetConfig token mid)) = Inl ?err"
    using assms(1) by (intro then_json_failed non_success_failed)
  have g: "get_prop ?err (ascii ''detail'') = Inr (detail_of ?err)"
    using get_prop_not_nullish [OF truthy_detail_not_nullish [OF assms(2)]]
    by (simp add: detail_of_def)
  show ?thesis
    using assms(2) by (simp add: getWebhookConfig_def fetch_def t g)
qed

theorem getWebhookConfig_throws_detail_example:
  "non_success (respond (answering (Inr (json_response False (Obj [(ascii ''detail'', Str (ascii ''Model not found''))]))) :: unit world) (GetConfig (ascii ''token'') (ascii ''model'')))
   \<and> truthy (detail_of (caught (respond (answering (Inr (json_response False (Obj [(ascii ''detail'', Str (ascii ''Model not found''))]))) :: unit world) (GetConfig (ascii ''token'') (ascii ''model'')))))
   \<and> fst (getWebhookConfig (answering (Inr (json_response False (Obj [(ascii ''detail'', Str (ascii ''Model not found''))]))) :: unit world) (ascii ''token'') (ascii ''model''))
      = Inl (Thrown (Str (ascii ''Model not found'')))"
  using getWebhookConfig_throws_detail [of "answering (Inr (json_response False (Obj [(ascii ''detail'', Str (ascii ''Model not found''))]))) :: unit world" "ascii ''token''" "ascii ''model''"]
  by (simp add: answering_def non_success_def caught_def then_json_def json_response_def detail_of_def ascii_def)

text \<open>
  Claim C2 says that \<open>getWebhookConfig\<close> fails whenever the status is not a success
  status and never returns a value in place of failing. The code at two such responses:
  one whose body is not JSON, so that \<open>res.json()\<close> rejects with a syntax error that
  has a message and no detail, and one whose body is \<open>{}\<close>. In both the function
  returns \<open>null\<close>.
\<close>

theorem getWebhookConfig_returns_null:
  "non_success (Inr \<lparr>ok = False, json = Inl (Obj [(ascii ''message'', Str (ascii ''Unexpected token''))])\<rparr>)
   \<and> fst (getWebhookConfig
          (answering (Inr \<lparr>ok = False, json = Inl (Obj [(ascii ''message'', Str (ascii ''Unexpected token''))])\<rparr>) :: unit world)
          (ascii ''token'') (ascii ''model'')) = Inr Null
   \<and> non_success (Inr (json_response False (Obj [])))
   \<and> fst (getWebhookConfig (answering (Inr (json_response False (Obj []))) :: unit world)
          (ascii ''token'') (ascii ''model'')) = Inr Null"
  by (simp add: getWebhookConfig_def fetch_def answering_def then_json_def json_response_def
      non_success_def ascii_def)

text \<open>
  When the response of \<open>invokeWebhook\<close> has a non-success status and the caught value
  is not \<open>null\<close>, the function throws the first truthy one of the caught value's
  \<open>detail\<close>, its \<open>message\<close>, and the string \<open>Unknown error\<close>.
\<close>

theorem invokeWebhook_error_priority:
  assumes "non_success (respond w (PostInvoke token mid fd chat))"
    and "\<not> nullish (caught (respond w (PostInvoke token mid fd chat)))"
  shows "fst (invokeWebhook w token mid fd chat) =
           Inl (Thrown
             (if truthy (detail_of (caught (respond w (PostInvoke token mid fd chat))))
              then detail_of (caught (respond w (PostInvoke token mid fd chat)))
              else if truthy (message_of (caught (respond w (PostInvoke token mid fd chat))))
              then message_of (caught (respond w (PostInvoke token mid fd chat)))
              else Str (ascii ''Unknown error'')))"
proof -
  let ?err = "caught (respond w (PostInvoke token mid fd chat))"
  have t: "then_json (respond w (PostInvoke token mid fd chat)) = Inl ?err"
    using assms(1) by (intro then_json_failed non_success_failed)
  have g: "get_prop ?err (ascii ''detail'') = Inr (detail_of ?err)"
    using get_prop_not_nullish [OF assms(2)] by (simp add: detail_of_def)
  have m: "get_prop ?err (ascii ''message'') = Inr (message_of ?err)"
    using get_prop_not_nullish [OF assms(2)] by (simp add: message_of_def)
  have u: "truthy (Str (ascii ''Unknown error''))"
    by (simp add: ascii_def)
  show ?thesis
    using u by (simp add: invokeWebhook_def invoke_result_def fetch_def t g m js_or_def Let_def)
qed

text \<open>A 400 response with body \<open>{"detail": "bad input"}\<close> rejects with \<open>bad input\<close>.\<close>

theorem invokeWebhook_error_priority_example:
  "non_success (respond (answering (Inr (json_response False (Obj [(ascii ''detail'', Str (ascii ''bad input''))]))) :: unit world) (PostInvoke (ascii ''token'') (ascii ''model'') [] None))
   \<and> \<not> nullish (caught (respond (answering (Inr (json_response False (Obj [(ascii ''detail'', Str (ascii ''bad input''))]))) :: unit world) (PostInvoke (ascii ''token'') (ascii ''model'') [] None)))
   \<and> fst (invokeWebhook (answering (Inr (json_response False (Obj [(ascii ''detail'', Str (ascii ''bad input''))]))) :: unit world) (ascii ''token'') (ascii ''model'') [] None)
      = Inl (Thrown (Str (ascii ''bad input'')))"
  using invokeWebhook_error_priority [of "answering (Inr (json_response False (Obj [(ascii ''detail'', Str (ascii ''bad input''))]))) :: unit world" "ascii ''token''" "ascii ''model''" "[]" None]
  by (simp add: answering_def non_success_def caught_def then_json_def json_response_def detail_of_def nullish_def ascii_def)

text \<open>
  Claim C8 says that on every non-success status \<open>invokeWebhook\<close> rejects with the
  detail, else the message, else the generic fallback. The code at a non-success
  response whose body is the JSON literal \<open>null\<close>: the catch handler reads \<open>detail\<close>
  of \<open>null\<close>, and the function rejects with the runtime's TypeError, which is none of
  the three.
\<close>

theorem invokeWebhook_null_body:
  "non_success (Inr (json_response False Null))
   \<and> fst (invokeWebhook (answering (Inr (json_response False Null)) :: unit world)
          (ascii ''token'') (ascii ''model'') [] None) = Inl TypeError"
  by (simp add: invokeWebhook_def invoke_result_def fetch_def answering_def then_json_def
      json_response_def non_success_def)

section \<open>Properties of the response renderer\<close>

text \<open>
  Claim C3, as the code has it. \<open>detectDataType\<close> is a function of the shape of the
  payload: \<open>undefined\<close>, \<open>null\<close> and every other falsy value (\<open>false\<close>, \<open>0\<close>,
  \<open>NaN\<close>, the empty string) give \<open>empty\<close>; a non-empty array gives \<open>table\<close> when
  its first element is a non-null object and \<open>list\<close> otherwise; a plain object gives
  \<open>key-value\<close>; a non-empty string, a number other than \<open>0\<close> and \<open>NaN\<close>,
  \<open>true\<close> and the empty array give \<open>raw\<close>.
\<close>

theorem detectDataType_by_shape:
  "detectDataType data =
     (case data of
        Undefined \<Rightarrow> Empty
      | Null \<Rightarrow> Empty
      | Bool b \<Rightarrow> if b then Raw else Empty
      | Num n \<Rightarrow> if n = NaN \<or> n = Finite 0 then Empty else Raw
      | Str s \<Rightarrow> if s = [] then Empty else Raw
      | Arr [] \<Rightarrow> Raw
      | Arr (x # xs) \<Rightarrow> if typeof_object x \<and> x \<noteq> Null then Table else ListType
      | Obj kvs \<Rightarrow> KeyValue)"
proof (cases data)
  case (Num n)
  then show ?thesis by (cases n) (simp_all add: detectDataType_def)
next
  case (Arr xs)
  then show ?thesis by (cases xs) (simp_all add: detectDataType_def)
qed (simp_all add: detectDataType_def)

text \<open>
  Against C3 as stated: the empty string, \<open>0\<close> and \<open>false\<close> are classified
  \<open>empty\<close>, not \<open>raw\<close>.
\<close>

theorem detectDataType_falsy_empty:
  "detectDataType (Str []) = Empty \<and> detectDataType (Num (Finite 0)) = Empty
   \<and> detectDataType (Bool False) = Empty"
  by (simp add: detectDataType_def)

lemma filter_first_seen: "filter P (first_seen ks) = first_seen (filter P ks)"
proof (induction ks)
  case Nil
  show ?case by simp
next
  case (Cons k ks)
  show ?case
  proof (cases "P k")
    case True
    have "filter P (filter (\<lambda>k'. k' \<noteq> k) (first_seen ks))
            = filter (\<lambda>k'. k' \<noteq> k) (filter P (first_seen ks))"
      by (simp add: conj_commute)
    with True Cons show ?thesis by simp
  next
    case False
    have "filter P (filter (\<lambda>k'. k' \<noteq> k) (first_seen ks)) = filter P (first_seen ks)"
      using False by (auto intro: filter_cong)
    with False Cons show ?thesis by simp
  qed
qed

lemma set_first_seen: "set (first_seen ks) = set ks"
  by (induction ks) auto

lemma distinct_first_seen: "distinct (first_seen ks)"
  by (induction ks) (auto simp: set_first_seen)

lemma foldl_set_add:
  "foldl set_add acc ks = acc @ first_seen (filter (\<lambda>k. k \<notin> set acc) ks)"
proof (induction ks arbitrary: acc)
  case Nil
  show ?case by simp
next
  case (Cons k ks)
  show ?case
  proof (cases "k \<in> set acc")
    case True
    then show ?thesis using Cons [of acc] by (simp add: set_add_def)
  next
    case False
    have "filter (\<lambda>k'. k' \<notin> set (acc @ [k])) ks
            = filter (\<lambda>k'. k' \<noteq> k) (filter (\<lambda>k'. k' \<notin> set acc) ks)"
      by (auto intro: filter_cong)
    then show ?thesis
      using False Cons [of "acc @ [k]"] by (simp add: set_add_def filter_first_seen)
  qed
qed

lemma collect_keys_objects:
  "collect_keys acc (map Obj rows) = Inr (foldl set_add acc (concat (map (map fst) rows)))"
  by (induction rows arbitrary: acc) simp_all

lemma getTableHeaders_objects:
  "getTableHeaders (Arr (map Obj rows)) = Inr (first_seen (concat (map (map fst) rows)))"
proof (cases rows)
  case Nil
  then show ?thesis by (simp add: getTableHeaders_def)
next
  case (Cons r rs)
  have "getTableHeaders (Arr (map Obj rows)) = collect_keys [] (map Obj rows)"
    using Cons by (simp add: getTableHeaders_def)
  then show ?thesis
    by (simp only: collect_keys_objects foldl_set_add) simp
qed

lemma object_prototype_members_names:
  "ascii ''constructor'' \<in> set object_prototype_members"
  "ascii ''__proto__'' \<in> set object_prototype_members"
  by (simp_all add: object_prototype_members_def)

lemma missing_cell:
  assumes "h \<notin> fst ` set row" and "h \<notin> set object_prototype_members"
  shows "table_cell stringify to_string row h = ascii ''-''"
proof -
  have "map_of row h = None"
    using assms(1) by (simp add: map_of_eq_None_iff)
  then show ?thesis
    using assms(2) by (simp add: table_cell_def row_member_def formatValue_def)
qed

lemma inherited_cell:
  assumes "h \<notin> fst ` set row" and "h \<in> set object_prototype_members"
    and "h \<noteq> ascii ''__proto__''"
  shows "table_cell stringify to_string row h = to_string (Inherited h)"
proof -
  have "map_of row h = None"
    using assms(1) by (simp add: map_of_eq_None_iff)
  then show ?thesis
    using assms(2,3)
    by (simp add: table_cell_def row_member_def formatValue_def member_is_object_def)
qed

text \<open>
  The columns of a table. For a payload that is a non-empty array of plain objects, the
  payload is classified \<open>table\<close>, the header list holds the keys of every row, each
  once, in the order in which they are first seen, and a cell of a row that lacks the
  header's key renders as the dash when the key does not name a member of
  \<open>Object.prototype\<close>.
\<close>

theorem table_headers_first_seen:
  assumes "rows \<noteq> []"
  shows "detectDataType (Arr (map Obj rows)) = Table
         \<and> tableHeaders (Arr (map Obj rows)) = Inr (first_seen (concat (map (map fst) rows)))
         \<and> set (first_seen (concat (map (map fst) rows))) = (\<Union>row \<in> set rows. fst ` set row)
         \<and> distinct (first_seen (concat (map (map fst) rows)))
         \<and> (\<forall>row \<in> set rows. \<forall>h. h \<notin> fst ` set row \<longrightarrow> h \<notin> set object_prototype_members \<longrightarrow>
               table_cell stringify to_string row h = ascii ''-'')"
proof -
  have t: "detectDataType (Arr (map Obj rows)) = Table"
    using assms by (cases rows) (simp_all add: detectDataType_def)
  have h: "tableHeaders (Arr (map Obj rows)) = Inr (first_seen (concat (map (map fst) rows)))"
    by (simp add: tableHeaders_def t getTableHeaders_objects)
  have s: "set (first_seen (concat (map (map fst) rows))) = (\<Union>row \<in> set rows. fst ` set row)"
    by (simp add: set_first_seen)
  have c: "\<forall>row \<in> set rows. \<forall>h. h \<notin> fst ` set row \<longrightarrow> h \<notin> set object_prototype_members \<longrightarrow>
               table_cell stringify to_string row h = ascii ''-''"
    using missing_cell by blast
  show ?thesis
    using t h s c distinct_first_seen by (intro conjI)
qed

text \<open>
  The rows \<open>[{"a": 1}, {"b": 2}]\<close> give the headers \<open>["a", "b"]\<close>, and the cell of
  the first row under \<open>b\<close> is the dash.
\<close>

theorem table_headers_first_seen_example:
  "[[(ascii ''a'', Num (Finite 1))], [(ascii ''b'', Num (Finite 2))]] \<noteq> []
   \<and> tableHeaders (Arr [Obj [(ascii ''a'', Num (Finite 1))], Obj [(ascii ''b'', Num (Finite 2))]])
       = Inr [ascii ''a'', ascii ''b'']
   \<and> table_cell no_text no_text [(ascii ''a'', Num (Finite 1))] (ascii ''b'') = ascii ''-''"
proof -
  have k: "ascii ''a'' \<noteq> ascii ''b''" by (simp add: ascii_def)
  have m: "ascii ''b'' \<notin> set object_prototype_members"
    by (simp add: object_prototype_members_def ascii_def)
  show ?thesis
    using k m table_headers_first_seen [of "[[(ascii ''a'', Num (Finite 1))], [(ascii ''b'', Num (Finite 2))]]" no_text no_text]
    by simp
qed

text \<open>
  Claim C7, at the rows \<open>[{"constructor": "McLaren"}, {"b": 2}]\<close>. The payload is
  classified \<open>table\<close> and the columns are \<open>["constructor", "b"]\<close>, the keys in
  first-seen order, as the claim says. The second row has no key \<open>constructor\<close>, yet
  its cell in that column is not the dash: \<open>row[header]\<close> finds the function that
  every object inherits under that name, and the cell shows \<open>String\<close> of it,
  whatever \<open>String\<close> and \<open>JSON.stringify\<close> are; with the text the runtime gives a
  function, the cell reads \<open>function Object() { [native code] }\<close>.
\<close>

theorem table_cell_inherited_member:
  "detectDataType (Arr [Obj [(ascii ''constructor'', Str (ascii ''McLaren''))],
                        Obj [(ascii ''b'', Num (Finite 2))]]) = Table
   \<and> tableHeaders (Arr [Obj [(ascii ''constructor'', Str (ascii ''McLaren''))],
                        Obj [(ascii ''b'', Num (Finite 2))]])
       = Inr [ascii ''constructor'', ascii ''b'']
   \<and> map_of [(ascii ''b'', Num (Finite 2))] (ascii ''constructor'') = None
   \<and> table_cell stringify to_string [(ascii ''b'', Num (Finite 2))] (ascii ''constructor'')
       = to_string (Inherited (ascii ''constructor''))
   \<and> table_cell no_text runtime_string [(ascii ''b'', Num (Finite 2))] (ascii ''constructor'')
       = ascii ''function Object() { [native code] }''
   \<and> table_cell no_text runtime_string [(ascii ''b'', Num (Finite 2))] (ascii ''constructor'')
       \<noteq> ascii ''-''"
proof -
  let ?rows = "[[(ascii ''constructor'', Str (ascii ''McLaren''))], [(ascii ''b'', Num (Finite 2))]]"
  have k: "ascii ''b'' \<noteq> ascii ''constructor''" by (simp add: ascii_def)
  have p: "ascii ''constructor'' \<noteq> ascii ''__proto__''" by (simp add: ascii_def)
  have t: "detectDataType (Arr [Obj [(ascii ''constructor'', Str (ascii ''McLaren''))],
                        Obj [(ascii ''b'', Num (Finite 2))]]) = Table"
    by (simp add: detectDataType_def)
  have g: "getTableHeaders (Arr [Obj [(ascii ''constructor'', Str (ascii ''McLaren''))],
                        Obj [(ascii ''b'', Num (Finite 2))]])
             = Inr [ascii ''constructor'', ascii ''b'']"
    using k getTableHeaders_objects [of ?rows] by simp
  have h: "tableHeaders (Arr [Obj [(ascii ''constructor'', Str (ascii ''McLaren''))],
                        Obj [(ascii ''b'', Num (Finite 2))]])
             = Inr [ascii ''constructor'', ascii ''b'']"
    by (simp add: tableHeaders_def t g)
  have n: "map_of [(ascii ''b'', Num (Finite 2))] (ascii ''constructor'') = None"
    using k by simp
  have c: "table_cell stringify to_string [(ascii ''b'', Num (Finite 2))] (ascii ''constructor'')
             = to_string (Inherited (ascii ''constructor''))" for stringify to_string
    using k p object_prototype_members_names(1) by (intro inherited_cell) auto
  have r: "runtime_string (Inherited (ascii ''constructor''))
             = ascii ''function Object() { [native code] }''"
    by (simp add: runtime_string_def ascii_def)
  have d: "ascii ''function Object() { [native code] }'' \<noteq> ascii ''-''"
    by (simp add: ascii_def)
  show ?thesis
    using t h n c [of stringify to_string] c [of no_text runtime_string] r d by simp
qed

section \<open>Properties of the slash-command palette\<close>







section \<open>Properties of the workflow discovery menu\<close>

lemma listing_calls_append:
  "listing_calls (w\<lparr>sent := sent w @ [req]\<rparr>) = listing_calls w + (if is_listing req then 1 else 0)"
  by (simp add: listing_calls_def)

lemma getWebhookEnabledModels_world:
  "snd (getWebhookEnabledModels w token) = w\<lparr>sent := sent w @ [GetModels token]\<rparr>"
  by (simp add: getWebhookEnabledModels_def fetch_def)

lemma getWebhookConfig_world:
  "snd (getWebhookConfig w token mid) = w\<lparr>sent := sent w @ [GetConfig token mid]\<rparr>"
  by (simp add: getWebhookConfig_def fetch_def)

lemma getWebhookEnabledModels_outcome:
  "fst (getWebhookEnabledModels w token) =
     (case then_json (respond w (GetModels token)) of
        Inr v \<Rightarrow> Inr v
      | Inl err \<Rightarrow>
          (case get_prop err (ascii ''detail'') of
             Inl e \<Rightarrow> Inl e
           | Inr d \<Rightarrow> if truthy d then Inl (Thrown d) else Inr (Arr [])))"
  by (simp add: getWebhookEnabledModels_def fetch_def)

lemma failed_leaves_empty:
  assumes "then_json (respond w (GetModels token)) = Inr (Arr [])
           \<or> (\<exists>err. then_json (respond w (GetModels token)) = Inl err)"
  shows "leaves_empty (fst (getWebhookEnabledModels w token))"
  using assms
  by (auto simp: getWebhookEnabledModels_outcome leaves_empty_def split: sum.splits)

lemma loadWorkflows_loaded:
  assumes "workflows st = Arr (x # xs)"
  shows "loadWorkflows coerce w token st = (st, w)"
proof -
  have "get_prop (workflows st) (ascii ''length'') = Inr (Num (Finite (of_nat (length (x # xs)))))"
    using assms by simp
  moreover have "gt_zero coerce (Num (Finite (of_nat (length (x # xs)))))"
    by (simp add: gt_zero_def to_number_def)
  ultimately show ?thesis
    by (simp add: loadWorkflows_def)
qed

lemma loadWorkflows_empty:
  assumes "workflows st = Arr []"
  shows "loadWorkflows coerce w token st =
           (st\<lparr>menu_loading := True,
                awaited := awaited st @ [fst (getWebhookEnabledModels w token)]\<rparr>,
            w\<lparr>sent := sent w @ [GetModels token]\<rparr>)"
proof -
  have g: "get_prop (workflows st) (ascii ''length'') = Inr (Num (Finite 0))"
    using assms by simp
  have z: "\<not> gt_zero coerce (Num (Finite 0))"
    by (simp add: gt_zero_def to_number_def)
  obtain r w' where c: "getWebhookEnabledModels w token = (r, w')"
    by (cases "getWebhookEnabledModels w token")
  then have w': "w' = w\<lparr>sent := sent w @ [GetModels token]\<rparr>"
    using getWebhookEnabledModels_world [of w token] by simp
  show ?thesis
    by (simp add: loadWorkflows_def g z c w' Let_def)
qed

lemma selectWorkflow_keeps:
  "workflows (fst (selectWorkflow w token wm st)) = workflows st"
  "awaited (fst (selectWorkflow w token wm st)) = awaited st"
  "fst (snd (selectWorkflow w token wm st)) = w\<lparr>sent := sent w @ [GetConfig token (wm_id wm)]\<rparr>"
proof -
  obtain r w' where g: "getWebhookConfig w token (wm_id wm) = (r, w')"
    by (cases "getWebhookConfig w token (wm_id wm)")
  then have w': "w' = w\<lparr>sent := sent w @ [GetConfig token (wm_id wm)]\<rparr>"
    using getWebhookConfig_world [of w token "wm_id wm"] by simp
  show "workflows (fst (selectWorkflow w token wm st)) = workflows st"
    by (simp add: selectWorkflow_def g split: sum.splits prod.splits)
  show "awaited (fst (selectWorkflow w token wm st)) = awaited st"
    by (simp add: selectWorkflow_def g split: sum.splits prod.splits)
  have "fst (snd (selectWorkflow w token wm st)) = w'"
    by (simp add: selectWorkflow_def g split: sum.splits prod.splits)
  then show "fst (snd (selectWorkflow w token wm st)) = w\<lparr>sent := sent w @ [GetConfig token (wm_id wm)]\<rparr>"
    by (simp add: w')
qed

lemma menu_step_select:
  "menu_step coerce token (st, w) (Select wm) =
     (fst (selectWorkflow w token wm st), fst (snd (selectWorkflow w token wm st)))"
  by (cases "selectWorkflow w token wm st") (simp add: menu_step_def)

text \<open>No step changes how the outside answers.\<close>

lemma menu_step_respond:
  "respond (snd (menu_step coerce token (st, w) ev)) = respond w"
proof (cases ev)
  case Open
  show ?thesis
  proof (cases "menu_show st")
    case True
    with Open show ?thesis by (simp add: menu_step_def)
  next
    case False
    obtain r w' where c: "getWebhookEnabledModels w token = (r, w')"
      by (cases "getWebhookEnabledModels w token")
    then have "w' = w\<lparr>sent := sent w @ [GetModels token]\<rparr>"
      using getWebhookEnabledModels_world [of w token] by simp
    with Open False c show ?thesis
      by (simp add: menu_step_def loadWorkflows_def split: sum.splits)
  qed
next
  case Close
  then show ?thesis by (simp add: menu_step_def)
next
  case (Select wm)
  then show ?thesis by (simp add: menu_step_select selectWorkflow_keeps(3))
next
  case Settled
  then show ?thesis by (simp add: menu_step_def)
qed

text \<open>
  A non-empty cached list with no call suspended: no step sends a listing request or
  changes the list.
\<close>

lemma menu_step_loaded:
  assumes "workflows st = Arr (x # xs)" and "awaited st = []"
  shows "workflows (fst (menu_step coerce token (st, w) ev)) = Arr (x # xs)
         \<and> awaited (fst (menu_step coerce token (st, w) ev)) = []
         \<and> listing_calls (snd (menu_step coerce token (st, w) ev)) = listing_calls w"
proof (cases ev)
  case Open
  have "workflows (st\<lparr>menu_show := True\<rparr>) = Arr (x # xs)"
    using assms by simp
  from loadWorkflows_loaded [OF this, of coerce w token] have
    "loadWorkflows coerce w token (st\<lparr>menu_show := True\<rparr>) = (st\<lparr>menu_show := True\<rparr>, w)" .
  with Open assms show ?thesis
    by (simp add: menu_step_def)
next
  case Close
  with assms show ?thesis by (simp add: menu_step_def)
next
  case (Select wm)
  with assms show ?thesis
    by (simp add: menu_step_select selectWorkflow_keeps listing_calls_append)
next
  case Settled
  with assms show ?thesis by (simp add: menu_step_def loadWorkflows_resume_def)
qed

lemma menu_run_loaded:
  assumes "workflows (fst s) = Arr (x # xs)" and "awaited (fst s) = []"
  shows "workflows (fst (menu_run coerce token s evs)) = Arr (x # xs)
         \<and> listing_calls (snd (menu_run coerce token s evs)) = listing_calls (snd s)"
  using assms
proof (induction evs arbitrary: s)
  case Nil
  then show ?case by (simp add: menu_run_def)
next
  case (Cons ev evs)
  obtain st w where s: "s = (st, w)" by (cases s)
  with Cons.prems have "workflows st = Arr (x # xs)" and "awaited st = []" by simp_all
  from menu_step_loaded [OF this, of coerce token w ev]
  have a: "workflows (fst (menu_step coerce token s ev)) = Arr (x # xs)"
    and n: "awaited (fst (menu_step coerce token s ev)) = []"
    and b: "listing_calls (snd (menu_step coerce token s ev)) = listing_calls (snd s)"
    by (simp_all add: s)
  from Cons.IH [OF a n] b show ?case
    by (simp add: menu_run_def)
qed

text \<open>
  Closing the menu and selecting an entry leave the cached list, the suspended calls
  and the number of listing requests as they are.
\<close>

lemma menu_step_idle:
  assumes "ev \<noteq> Open" and "ev \<noteq> Settled"
  shows "workflows (fst (menu_step coerce token (st, w) ev)) = workflows st
         \<and> awaited (fst (menu_step coerce token (st, w) ev)) = awaited st
         \<and> listing_calls (snd (menu_step coerce token (st, w) ev)) = listing_calls w"
proof (cases ev)
  case Open
  with assms show ?thesis by simp
next
  case Close
  then show ?thesis by (simp add: menu_step_def)
next
  case (Select wm)
  then show ?thesis
    by (simp add: menu_step_select selectWorkflow_keeps listing_calls_append)
next
  case Settled
  with assms show ?thesis by simp
qed

lemma menu_run_idle:
  assumes "\<forall>ev \<in> set evs. ev \<noteq> Open \<and> ev \<noteq> Settled"
  shows "workflows (fst (menu_run coerce token s evs)) = workflows (fst s)
         \<and> awaited (fst (menu_run coerce token s evs)) = awaited (fst s)
         \<and> listing_calls (snd (menu_run coerce token s evs)) = listing_calls (snd s)"
  using assms
proof (induction evs arbitrary: s)
  case Nil
  show ?case by (simp add: menu_run_def)
next
  case (Cons ev evs)
  obtain st w where s: "s = (st, w)" by (cases s)
  from Cons.prems have e: "ev \<noteq> Open" "ev \<noteq> Settled"
    and r: "\<forall>ev \<in> set evs. ev \<noteq> Open \<and> ev \<noteq> Settled" by simp_all
  from menu_step_idle [OF e, of coerce token st w] Cons.IH [OF r, of "menu_step coerce token s ev"]
  show ?case
    by (simp add: menu_run_def s)
qed

text \<open>
  An empty cached list, with every suspended call and every new call of the listing
  function bound to leave it empty: the list stays empty.
\<close>

lemma menu_step_empty:
  assumes "workflows st = Arr []"
    and "\<forall>r \<in> set (awaited st). leaves_empty r"
    and "leaves_empty (fst (getWebhookEnabledModels w token))"
  shows "workflows (fst (menu_step coerce token (st, w) ev)) = Arr []
         \<and> (\<forall>r \<in> set (awaited (fst (menu_step coerce token (st, w) ev))). leaves_empty r)"
proof (cases ev)
  case Open
  show ?thesis
  proof (cases "menu_show st")
    case True
    with Open assms show ?thesis by (simp add: menu_step_def)
  next
    case False
    have "workflows (st\<lparr>menu_show := True\<rparr>) = Arr []"
      using assms(1) by simp
    from loadWorkflows_empty [OF this, of coerce w token] Open False assms show ?thesis
      by (simp add: menu_step_def)
  qed
next
  case Close
  with assms show ?thesis by (simp add: menu_step_def)
next
  case (Select wm)
  with assms show ?thesis
    by (simp add: menu_step_select selectWorkflow_keeps)
next
  case Settled
  show ?thesis
  proof (cases "awaited st")
    case Nil
    with Settled assms show ?thesis by (simp add: menu_step_def loadWorkflows_resume_def)
  next
    case (Cons r rest)
    with assms(2) have "leaves_empty r" and "\<forall>r \<in> set rest. leaves_empty r" by simp_all
    with Settled Cons assms(1) show ?thesis
      by (auto simp: menu_step_def loadWorkflows_resume_def leaves_empty_def split: sum.splits)
  qed
qed

lemma menu_run_empty:
  assumes "workflows (fst s) = Arr []"
    and "\<forall>r \<in> set (awaited (fst s)). leaves_empty r"
    and "leaves_empty (fst (getWebhookEnabledModels (snd s) token))"
  shows "workflows (fst (menu_run coerce token s evs)) = Arr []"
  using assms
proof (induction evs arbitrary: s)
  case Nil
  then show ?case by (simp add: menu_run_def)
next
  case (Cons ev evs)
  obtain st w where s: "s = (st, w)" by (cases s)
  from Cons.prems s have p: "workflows st = Arr []" "\<forall>r \<in> set (awaited st). leaves_empty r"
    "leaves_empty (fst (getWebhookEnabledModels w token))" by simp_all
  from menu_step_empty [OF p, of coerce ev]
  have a: "workflows (fst (menu_step coerce token s ev)) = Arr []"
    and n: "\<forall>r \<in> set (awaited (fst (menu_step coerce token s ev))). leaves_empty r"
    by (simp_all add: s)
  have "fst (getWebhookEnabledModels (snd (menu_step coerce token s ev)) token)
          = fst (getWebhookEnabledModels w token)"
    by (simp add: getWebhookEnabledModels_outcome s menu_step_respond)
  with p(3) have l: "leaves_empty (fst (getWebhookEnabledModels (snd (menu_step coerce token s ev)) token))"
    by simp
  from Cons.IH [OF a n l] show ?case
    by (simp add: menu_run_def)
qed

text \<open>An open of a closed menu whose cached list is empty sends one listing request.\<close>

lemma open_fetches:
  assumes "\<not> menu_show st" and "workflows st = Arr []"
  shows "listing_calls (snd (menu_step coerce token (st, w) Open)) = listing_calls w + 1"
proof -
  have "workflows (st\<lparr>menu_show := True\<rparr>) = Arr []"
    using assms(2) by simp
  from loadWorkflows_empty [OF this, of coerce w token] assms(1) show ?thesis
    by (simp add: menu_step_def listing_calls_append)
qed

text \<open>
  Claim C10, as the code has it. The first open sends one listing request, whatever the
  answer will be, and so does every open of a closed menu whose cached list is empty.
  Once the cached list is non-empty and no call of \<open>loadWorkflows\<close> is suspended, no
  later open, close, selection or settling sends a listing request or changes the list;
  so when the listing endpoint answers with a non-empty list and the fetch of the first
  open settles before the menu is opened again, one listing request is sent whatever
  follows. When the endpoint answers with the empty list, or the request fails, the
  cached list stays empty whatever happens, and every close followed by an open sends
  one more listing request.
\<close>

theorem menu_fetch_once:
  "listing_calls (snd (menu_step coerce token (initial_menu, w) Open)) = listing_calls w + 1
   \<and> (\<not> menu_show st \<and> workflows st = Arr [] \<longrightarrow>
        listing_calls (snd (menu_step coerce token (st, w) Open)) = listing_calls w + 1)
   \<and> (workflows st = Arr (x # xs) \<and> awaited st = [] \<longrightarrow>
        listing_calls (snd (menu_run coerce token (st, w) evs)) = listing_calls w
        \<and> workflows (fst (menu_run coerce token (st, w) evs)) = Arr (x # xs))
   \<and> (then_json (respond w (GetModels token)) = Inr (Arr (x # xs))
        \<and> (\<forall>ev \<in> set evs'. ev \<noteq> Open \<and> ev \<noteq> Settled) \<longrightarrow>
        listing_calls (snd (menu_run coerce token (initial_menu, w) (Open # evs' @ Settled # evs)))
          = listing_calls w + 1
        \<and> workflows (fst (menu_run coerce token (initial_menu, w) (Open # evs' @ Settled # evs)))
          = Arr (x # xs))
   \<and> (then_json (respond w (GetModels token)) = Inr (Arr [])
        \<or> (\<exists>err. then_json (respond w (GetModels token)) = Inl err) \<longrightarrow>
        workflows (fst (menu_run coerce token (initial_menu, w) evs)) = Arr []
        \<and> listing_calls (snd (menu_run coerce token (initial_menu, w) (evs @ [Close, Open])))
          = listing_calls (snd (menu_run coerce token (initial_menu, w) evs)) + 1)"
proof -
  have first: "listing_calls (snd (menu_step coerce token (initial_menu, w) Open)) = listing_calls w + 1"
    by (rule open_fetches) (simp_all add: initial_menu_def)
  have again: "\<not> menu_show st \<and> workflows st = Arr [] \<longrightarrow>
        listing_calls (snd (menu_step coerce token (st, w) Open)) = listing_calls w + 1"
    using open_fetches by blast
  have kept: "workflows st = Arr (x # xs) \<and> awaited st = [] \<longrightarrow>
        listing_calls (snd (menu_run coerce token (st, w) evs)) = listing_calls w
        \<and> workflows (fst (menu_run coerce token (st, w) evs)) = Arr (x # xs)"
    using menu_run_loaded [of "(st, w)" x xs coerce token evs] by simp
  have once: "listing_calls (snd (menu_run coerce token (initial_menu, w) (Open # evs' @ Settled # evs)))
          = listing_calls w + 1
        \<and> workflows (fst (menu_run coerce token (initial_menu, w) (Open # evs' @ Settled # evs)))
          = Arr (x # xs)"
    if r: "then_json (respond w (GetModels token)) = Inr (Arr (x # xs))"
      and i: "\<forall>ev \<in> set evs'. ev \<noteq> Open \<and> ev \<noteq> Settled"
  proof -
    let ?w = "w\<lparr>sent := sent w @ [GetModels token]\<rparr>"
    let ?st = "initial_menu\<lparr>menu_show := True\<rparr>"
    let ?st1 = "?st\<lparr>menu_loading := True, awaited := [Inr (Arr (x # xs))]\<rparr>"
    have e: "workflows ?st = Arr []" by (simp add: initial_menu_def)
    have o: "fst (getWebhookEnabledModels w token) = Inr (Arr (x # xs))"
      by (simp add: getWebhookEnabledModels_outcome r)
    have a: "menu_step coerce token (initial_menu, w) Open = (?st1, ?w)"
      using loadWorkflows_empty [OF e, of coerce w token]
      by (simp add: menu_step_def o initial_menu_def)
    obtain st2 w2 where s2: "menu_run coerce token (?st1, ?w) evs' = (st2, w2)"
      by (cases "menu_run coerce token (?st1, ?w) evs'")
    from menu_run_idle [OF i, of coerce token "(?st1, ?w)"] s2
    have p: "workflows st2 = Arr []" "awaited st2 = [Inr (Arr (x # xs))]"
      "listing_calls w2 = listing_calls w + 1"
      by (simp_all add: initial_menu_def listing_calls_append)
    have "menu_run coerce token (initial_menu, w) (Open # evs' @ Settled # evs)
               = menu_run coerce token
                   (menu_step coerce token
                      (menu_run coerce token (menu_step coerce token (initial_menu, w) Open) evs')
                      Settled) evs"
      by (simp add: menu_run_def)
    also have "menu_step coerce token
                 (menu_run coerce token (menu_step coerce token (initial_menu, w) Open) evs') Settled
                 = (loadWorkflows_resume st2, w2)"
      unfolding a s2 by (simp add: menu_step_def)
    finally have b: "menu_run coerce token (initial_menu, w) (Open # evs' @ Settled # evs)
               = menu_run coerce token (loadWorkflows_resume st2, w2) evs" .
    have l: "workflows (fst (loadWorkflows_resume st2, w2)) = Arr (x # xs)"
      and n: "awaited (fst (loadWorkflows_resume st2, w2)) = []"
      by (simp_all add: loadWorkflows_resume_def p)
    from menu_run_loaded [OF l n, of coerce token evs] show ?thesis
      by (simp add: b p)
  qed
  have never: "workflows (fst (menu_run coerce token (initial_menu, w) evs)) = Arr []
        \<and> listing_calls (snd (menu_run coerce token (initial_menu, w) (evs @ [Close, Open])))
          = listing_calls (snd (menu_run coerce token (initial_menu, w) evs)) + 1"
    if r: "then_json (respond w (GetModels token)) = Inr (Arr [])
        \<or> (\<exists>err. then_json (respond w (GetModels token)) = Inl err)"
  proof -
    have l: "leaves_empty (fst (getWebhookEnabledModels (snd (initial_menu, w)) token))"
      using failed_leaves_empty [OF r] by simp
    have e: "workflows (fst (menu_run coerce token (initial_menu, w) evs)) = Arr []"
      by (rule menu_run_empty [OF _ _ l]) (simp_all add: initial_menu_def)
    obtain st' w' where s: "menu_run coerce token (initial_menu, w) evs = (st', w')"
      by (cases "menu_run coerce token (initial_menu, w) evs")
    with e have e': "workflows st' = Arr []" by simp
    have "menu_run coerce token (initial_menu, w) (evs @ [Close, Open])
            = menu_step coerce token
                (menu_step coerce token (menu_run coerce token (initial_menu, w) evs) Close) Open"
      by (simp add: menu_run_def)
    also have "menu_step coerce token (menu_run coerce token (initial_menu, w) evs) Close
                 = (st'\<lparr>menu_show := False\<rparr>, w')"
      unfolding s by (simp add: menu_step_def)
    finally have "menu_run coerce token (initial_menu, w) (evs @ [Close, Open])
            = menu_step coerce token (st'\<lparr>menu_show := False\<rparr>, w') Open" .
    moreover have "listing_calls (snd (menu_step coerce token (st'\<lparr>menu_show := False\<rparr>, w') Open))
            = listing_calls w' + 1"
      by (rule open_fetches) (simp_all add: e')
    ultimately show ?thesis
      using e s by simp
  qed
  show ?thesis
    using first again kept once never by (intro conjI impI) blast+
qed

text \<open>
  Against C10 as stated: when the first fetch has returned the empty list, the second
  open calls the listing endpoint again; and when the menu is closed and opened again
  before the first fetch has settled, the second open calls the listing endpoint again
  although the answer is a non-empty list.
\<close>

theorem menu_refetch_when_empty:
  "listing_calls
     (snd (menu_run nan_coerce (ascii ''token'')
             (initial_menu, answering (Inr (json_response True (Arr []))) :: unit world)
             [Open, Settled, Close, Open])) = 2
   \<and> listing_calls
     (snd (menu_run nan_coerce (ascii ''token'')
             (initial_menu,
              answering (Inr (json_response True (Arr [Obj [(ascii ''id'', Str (ascii ''m1''))]]))) :: unit world)
             [Open, Close, Open])) = 2"
  by (simp add: menu_run_def menu_step_def initial_menu_def loadWorkflows_def
      loadWorkflows_resume_def gt_zero_def to_number_def getWebhookEnabledModels_def fetch_def
      answering_def then_json_def json_response_def listing_calls_def)

text \<open>
  A menu whose listing endpoint answers with one model sends one listing request in
  the run open, close, settle, open, close, open. A menu whose listing endpoint
  answers 500 with a detail sends a second one at the second open. A closed menu with
  an empty list sends one at its open, and a menu that holds a list sends none.
\<close>

theorem menu_fetch_once_witness:
  "then_json (respond (answering (Inr (json_response True (Arr [Obj [(ascii ''id'', Str (ascii ''m1''))]]))) :: unit world)
       (GetModels (ascii ''token'')))
     = Inr (Arr [Obj [(ascii ''id'', Str (ascii ''m1''))]])
   \<and> listing_calls
     (snd (menu_run nan_coerce (ascii ''token'')
             (initial_menu,
              answering (Inr (json_response True (Arr [Obj [(ascii ''id'', Str (ascii ''m1''))]]))) :: unit world)
             [Open, Close, Settled, Open, Close, Open])) = 1
   \<and> then_json (respond (answering (Inr (json_response False (Obj [(ascii ''detail'', Str (ascii ''down''))]))) :: unit world)
       (GetModels (ascii ''token'')))
     = Inl (Obj [(ascii ''detail'', Str (ascii ''down''))])
   \<and> listing_calls
     (snd (menu_run nan_coerce (ascii ''token'')
             (initial_menu,
              answering (Inr (json_response False (Obj [(ascii ''detail'', Str (ascii ''down''))]))) :: unit world)
             [Open, Settled, Close, Open])) = 2
   \<and> \<not> menu_show initial_menu
   \<and> workflows initial_menu = Arr []
   \<and> listing_calls
     (snd (menu_step nan_coerce (ascii ''token'')
             (initial_menu, answering (Inl (Str (ascii ''offline''))) :: unit world) Open)) = 1
   \<and> workflows (initial_menu\<lparr>workflows := Arr [Str (ascii ''m1'')]\<rparr>) = Arr [Str (ascii ''m1'')]
   \<and> awaited (initial_menu\<lparr>workflows := Arr [Str (ascii ''m1'')]\<rparr>) = []
   \<and> listing_calls
     (snd (menu_run nan_coerce (ascii ''token'')
             (initial_menu\<lparr>workflows := Arr [Str (ascii ''m1'')]\<rparr>,
              answering (Inl (Str (ascii ''offline''))) :: unit world)
             [Open, Close, Open])) = 0"
proof -
  let ?good = "answering (Inr (json_response True (Arr [Obj [(ascii ''id'', Str (ascii ''m1''))]]))) :: unit world"
  let ?bad = "answering (Inr (json_response False (Obj [(ascii ''detail'', Str (ascii ''down''))]))) :: unit world"
  let ?off = "answering (Inl (Str (ascii ''offline''))) :: unit world"
  let ?t = "ascii ''token''"
  have g: "then_json (respond ?good (GetModels ?t)) = Inr (Arr (Obj [(ascii ''id'', Str (ascii ''m1''))] # []))"
    by (simp add: answering_def then_json_def json_response_def)
  have f: "then_json (respond ?bad (GetModels ?t)) = Inl (Obj [(ascii ''detail'', Str (ascii ''down''))])"
    by (simp add: answering_def then_json_def json_response_def)
  then have b: "then_json (respond ?bad (GetModels ?t)) = Inr (Arr [])
           \<or> (\<exists>err. then_json (respond ?bad (GetModels ?t)) = Inl err)"
    by simp
  have z: "listing_calls ?good = 0" "listing_calls ?bad = 0" "listing_calls ?off = 0"
    by (simp_all add: listing_calls_def answering_def)
  have c: "\<not> menu_show initial_menu \<and> workflows initial_menu = Arr []"
    by (simp add: initial_menu_def)
  have k: "workflows (initial_menu\<lparr>workflows := Arr [Str (ascii ''m1'')]\<rparr>) = Arr (Str (ascii ''m1'') # [])
           \<and> awaited (initial_menu\<lparr>workflows := Arr [Str (ascii ''m1'')]\<rparr>) = []"
    by (simp add: initial_menu_def)
  have s: "listing_calls (snd (menu_run nan_coerce ?t (initial_menu, ?bad) [Open, Settled])) = 1"
    by (simp add: menu_run_def menu_step_def initial_menu_def loadWorkflows_def
        loadWorkflows_resume_def gt_zero_def to_number_def getWebhookEnabledModels_def fetch_def
        answering_def listing_calls_def)
  have i: "\<forall>ev \<in> set [Close]. ev \<noteq> Open \<and> ev \<noteq> Settled"
    by simp
  have 1: "listing_calls (snd (menu_run nan_coerce ?t (initial_menu, ?good)
              (Open # [Close] @ Settled # [Open, Close, Open]))) = listing_calls ?good + 1"
    using g i menu_fetch_once [of nan_coerce ?t ?good initial_menu "Obj [(ascii ''id'', Str (ascii ''m1''))]" "[]" "[Open, Close, Open]" "[Close]"]
    by blast
  have 2: "listing_calls (snd (menu_run nan_coerce ?t (initial_menu, ?bad) ([Open, Settled] @ [Close, Open])))
            = listing_calls (snd (menu_run nan_coerce ?t (initial_menu, ?bad) [Open, Settled])) + 1"
    using b menu_fetch_once [of nan_coerce ?t ?bad initial_menu Null "[]" "[Open, Settled]" "[]"]
    by blast
  have 3: "listing_calls (snd (menu_step nan_coerce ?t (initial_menu, ?off) Open)) = listing_calls ?off + 1"
    using c menu_fetch_once [of nan_coerce ?t ?off initial_menu Null "[]" "[]" "[]"]
    by blast
  have 4: "listing_calls (snd (menu_run nan_coerce ?t
              (initial_menu\<lparr>workflows := Arr [Str (ascii ''m1'')]\<rparr>, ?off) [Open, Close, Open]))
            = listing_calls ?off"
    using k menu_fetch_once [of nan_coerce ?t ?off "initial_menu\<lparr>workflows := Arr [Str (ascii ''m1'')]\<rparr>"
        "Str (ascii ''m1'')" "[]" "[Open, Close, Open]" "[]"]
    by blast
  show ?thesis
    using 1 2 3 4 s z g f c k by simp
qed

section \<open>Properties of objects\<close>

lemma map_of_obj_insert_index:
  assumes "k \<notin> fst ` set ob"
  shows "map_of (obj_insert_index n k v ob) x = (if x = k then Some v else map_of ob x)"
  using assms
proof (induction ob)
  case Nil
  show ?case by simp
next
  case (Cons p ob)
  obtain k' v' where p: "p = (k', v')" by (cases p)
  from Cons.prems p have ne: "k \<noteq> k'" and nin: "k \<notin> fst ` set ob" by auto
  show ?case
  proof (cases "array_index k'")
    case None
    with ne show ?thesis by (simp add: p)
  next
    case (Some m)
    show ?thesis
    proof (cases "m < n")
      case True
      with Some ne Cons.IH [OF nin] show ?thesis by (auto simp: p)
    next
      case False
      with Some ne show ?thesis by (simp add: p)
    qed
  qed
qed

lemma map_of_obj_replace_other:
  "x \<noteq> k \<Longrightarrow> map_of (obj_replace k v ob) x = map_of ob x"
proof (induction ob)
  case Nil
  show ?case by simp
next
  case (Cons p ob)
  obtain k' v' where p: "p = (k', v')" by (cases p)
  with Cons show ?case by (cases "k' = k") simp_all
qed

lemma map_of_obj_replace_same:
  "k \<in> fst ` set ob \<Longrightarrow> map_of (obj_replace k v ob) k = Some v"
proof (induction ob)
  case Nil
  then show ?case by simp
next
  case (Cons p ob)
  obtain k' v' where p: "p = (k', v')" by (cases p)
  show ?case
  proof (cases "k' = k")
    case True
    then show ?thesis by (simp add: p)
  next
    case False
    with Cons.prems p have "k \<in> fst ` set ob" by auto
    with Cons.IH False show ?thesis by (simp add: p)
  qed
qed

lemma keys_obj_replace: "map fst (obj_replace k v ob) = map fst ob"
proof (induction ob)
  case Nil
  show ?case by simp
next
  case (Cons p ob)
  obtain k' v' where p: "p = (k', v')" by (cases p)
  with Cons.IH show ?case by (cases "k' = k") simp_all
qed

lemma keys_obj_insert_index:
  "set (map fst (obj_insert_index n k v ob)) = insert k (set (map fst ob))"
proof (induction ob)
  case Nil
  show ?case by simp
next
  case (Cons p ob)
  obtain k' v' where p: "p = (k', v')" by (cases p)
  show ?case
  proof (cases "array_index k'")
    case None
    then show ?thesis by (simp add: p)
  next
    case (Some m)
    show ?thesis
    proof (cases "m < n")
      case True
      with Some Cons.IH show ?thesis by (simp add: p insert_commute)
    next
      case False
      with Some show ?thesis by (simp add: p)
    qed
  qed
qed

text \<open>
  An assignment to a key other than \<open>__proto__\<close> creates or overwrites the own
  property; an assignment to \<open>__proto__\<close> leaves the own properties as they are.
\<close>

lemma obj_set_plain:
  "k \<noteq> ascii ''__proto__'' \<Longrightarrow>
     obj_set ob k v =
       (if k \<in> set (obj_keys ob) then obj_replace k v ob
        else (case array_index k of
                Some n \<Rightarrow> obj_insert_index n k v ob
              | None \<Rightarrow> ob @ [(k, v)]))"
  by (simp add: obj_set_def)

lemma obj_set_proto: "obj_set ob (ascii ''__proto__'') v = ob"
  by (simp add: obj_set_def)

lemma obj_get_obj_set:
  assumes k: "k \<noteq> ascii ''__proto__''"
  shows "obj_get (obj_set ob k v) x = (if x = k then Some v else obj_get ob x)"
proof (cases "k \<in> set (obj_keys ob)")
  case True
  then have "k \<in> fst ` set ob" by (simp add: obj_keys_def)
  from map_of_obj_replace_same [OF this, of v] True show ?thesis
    by (simp add: obj_get_def obj_set_plain [OF k] map_of_obj_replace_other)
next
  case False
  then have nin: "k \<notin> fst ` set ob" by (simp add: obj_keys_def)
  then have none: "map_of ob k = None" by (simp add: map_of_eq_None_iff)
  show ?thesis
  proof (cases "array_index k")
    case None
    with False none show ?thesis
      by (simp add: obj_get_def obj_set_plain [OF k] map_add_def split: option.splits)
  next
    case (Some n)
    with False map_of_obj_insert_index [OF nin, of n v x] show ?thesis
      by (simp add: obj_get_def obj_set_plain [OF k])
  qed
qed

lemma keys_obj_set:
  assumes k: "k \<noteq> ascii ''__proto__''"
  shows "set (obj_keys (obj_set ob k v)) = insert k (set (obj_keys ob))"
proof (cases "k \<in> set (obj_keys ob)")
  case True
  then have "obj_keys (obj_set ob k v) = obj_keys ob"
    by (simp add: obj_set_plain [OF k] obj_keys_def keys_obj_replace)
  with True show ?thesis by (simp add: insert_absorb)
next
  case False
  show ?thesis
  proof (cases "array_index k")
    case None
    with False show ?thesis by (simp add: obj_set_plain [OF k] obj_keys_def)
  next
    case (Some n)
    with False keys_obj_insert_index [of n k v ob] show ?thesis
      by (simp add: obj_set_plain [OF k] obj_keys_def)
  qed
qed

lemma obj_set_not_empty:
  assumes k: "k \<noteq> ascii ''__proto__''"
  shows "obj_set ob k v \<noteq> []"
proof
  assume "obj_set ob k v = []"
  then have "set (obj_keys (obj_set ob k v)) = {}" by (simp add: obj_keys_def)
  then show False by (simp add: keys_obj_set [OF k])
qed

section \<open>Properties of the form modal\<close>

lemma fst_init_field:
  "fst (init_field acc f) =
     (if ff_type f = FileField then fst acc else obj_set (fst acc) (ff_name f) (Str (default_or_empty f)))"
  by (cases acc) (simp add: init_field_def)

lemma snd_init_field:
  "snd (init_field acc f) =
     (if ff_type f = FileField then obj_set (snd acc) (ff_name f) [] else snd acc)"
  by (cases acc) (simp add: init_field_def)

lemma init_form_keys:
  assumes "\<forall>f \<in> set fs. ff_name f \<noteq> ascii ''__proto__''"
  shows "set (obj_keys (fst (foldl init_field acc fs))) =
     set (obj_keys (fst acc)) \<union> ff_name ` {f \<in> set fs. ff_type f \<noteq> FileField}"
  using assms
proof (induction fs rule: rev_induct)
  case Nil
  show ?case by simp
next
  case (snoc f fs)
  from snoc.prems have n: "ff_name f \<noteq> ascii ''__proto__''"
    and r: "\<forall>f \<in> set fs. ff_name f \<noteq> ascii ''__proto__''" by simp_all
  show ?case
  proof (cases "ff_type f = FileField")
    case True
    with snoc.IH [OF r] show ?thesis by (auto simp: fst_init_field)
  next
    case False
    with snoc.IH [OF r] show ?thesis by (auto simp: fst_init_field keys_obj_set [OF n])
  qed
qed

lemma init_file_keys:
  assumes "\<forall>f \<in> set fs. ff_name f \<noteq> ascii ''__proto__''"
  shows "set (obj_keys (snd (foldl init_field acc fs))) =
     set (obj_keys (snd acc)) \<union> ff_name ` {f \<in> set fs. ff_type f = FileField}"
  using assms
proof (induction fs rule: rev_induct)
  case Nil
  show ?case by simp
next
  case (snoc f fs)
  from snoc.prems have n: "ff_name f \<noteq> ascii ''__proto__''"
    and r: "\<forall>f \<in> set fs. ff_name f \<noteq> ascii ''__proto__''" by simp_all
  show ?case
  proof (cases "ff_type f = FileField")
    case True
    with snoc.IH [OF r] show ?thesis by (auto simp: snd_init_field keys_obj_set [OF n])
  next
    case False
    with snoc.IH [OF r] show ?thesis by (auto simp: snd_init_field)
  qed
qed

lemma init_file_values:
  assumes "\<forall>f \<in> set fs. ff_name f \<noteq> ascii ''__proto__''"
    and "f \<in> set fs" and "ff_type f = FileField"
  shows "obj_get (snd (foldl init_field acc fs)) (ff_name f) = Some []"
  using assms
proof (induction fs rule: rev_induct)
  case Nil
  then show ?case by simp
next
  case (snoc g fs)
  from snoc.prems(1) have n: "ff_name g \<noteq> ascii ''__proto__''"
    and r: "\<forall>f \<in> set fs. ff_name f \<noteq> ascii ''__proto__''" by simp_all
  show ?case
  proof (cases "f = g")
    case True
    with snoc.prems show ?thesis by (simp add: snd_init_field obj_get_obj_set [OF n])
  next
    case False
    with snoc.prems have "f \<in> set fs" by simp
    from snoc.IH [OF r this snoc.prems(3)] show ?thesis
      by (simp add: snd_init_field obj_get_obj_set [OF n])
  qed
qed

lemma init_form_values:
  assumes "\<forall>f \<in> set fs. ff_name f \<noteq> ascii ''__proto__''"
    and "f \<in> set fs" and "ff_type f \<noteq> FileField"
  shows "\<exists>g \<in> set fs. ff_type g \<noteq> FileField \<and> ff_name g = ff_name f
        \<and> obj_get (fst (foldl init_field acc fs)) (ff_name f) = Some (Str (default_or_empty g))"
  using assms
proof (induction fs rule: rev_induct)
  case Nil
  then show ?case by simp
next
  case (snoc h fs)
  from snoc.prems(1) have n: "ff_name h \<noteq> ascii ''__proto__''"
    and r: "\<forall>f \<in> set fs. ff_name f \<noteq> ascii ''__proto__''" by simp_all
  show ?case
  proof (cases "ff_type h \<noteq> FileField \<and> ff_name h = ff_name f")
    case True
    with n have nf: "ff_name f \<noteq> ascii ''__proto__''" by simp
    from True have "obj_get (fst (foldl init_field acc (fs @ [h]))) (ff_name f) = Some (Str (default_or_empty h))"
      by (simp add: fst_init_field obj_get_obj_set [OF nf])
    with True show ?thesis by auto
  next
    case False
    with snoc.prems have "f \<in> set fs" by auto
    from snoc.IH [OF r this snoc.prems(3)] obtain g where
      g: "g \<in> set fs" "ff_type g \<noteq> FileField" "ff_name g = ff_name f"
         "obj_get (fst (foldl init_field acc fs)) (ff_name f) = Some (Str (default_or_empty g))"
      by blast
    have "obj_get (fst (foldl init_field acc (fs @ [h]))) (ff_name f)
            = obj_get (fst (foldl init_field acc fs)) (ff_name f)"
      using False by (auto simp: fst_init_field obj_get_obj_set [OF n])
    with g show ?thesis by auto
  qed
qed

lemma set_show_True:
  fixes st :: "'f modal"
  assumes "\<not> shown st"
  shows "formData (set_show True st)
           = fst (foldl init_field ([], [] :: 'f list obj) (formFields st))"
    and "fileData (set_show True st) = snd (foldl init_field ([], []) (formFields st))"
    and "errors (set_show True st) = []"
    and "formFields (set_show True st) = formFields st"
  using assms by (simp_all add: set_show_def init_form_def split_beta)

text \<open>
  Opening a schema none of whose fields is named \<open>__proto__\<close>. When the modal
  becomes visible (\<open>show\<close> goes from false to true), whatever the state before: the
  error map is empty; \<open>formData\<close> holds exactly the names of the fields that are not
  file fields and \<open>fileData\<close> exactly the names of the file fields; every file field
  has the empty file list; every other field has the default, or the empty string, of a
  field of its name, which is its own when the names of the schema are distinct; and the
  three variables depend on the schema only, so that opening the same schema again gives
  the same state.
\<close>

theorem modal_open_resets:
  fixes st st' :: "'f modal"
  assumes hidden: "\<not> shown st"
    and names: "\<forall>f \<in> set (formFields st). ff_name f \<noteq> ascii ''__proto__''"
  shows "errors (set_show True st) = []
   \<and> set (obj_keys (formData (set_show True st)))
        = ff_name ` {f \<in> set (formFields st). ff_type f \<noteq> FileField}
   \<and> set (obj_keys (fileData (set_show True st)))
        = ff_name ` {f \<in> set (formFields st). ff_type f = FileField}
   \<and> (\<forall>f \<in> set (formFields st). ff_type f = FileField \<longrightarrow>
         obj_get (fileData (set_show True st)) (ff_name f) = Some [])
   \<and> (\<forall>f \<in> set (formFields st). ff_type f \<noteq> FileField \<longrightarrow>
         (\<exists>g \<in> set (formFields st). ff_type g \<noteq> FileField \<and> ff_name g = ff_name f
            \<and> obj_get (formData (set_show True st)) (ff_name f) = Some (Str (default_or_empty g))))
   \<and> (distinct (map ff_name (formFields st)) \<longrightarrow>
        (\<forall>f \<in> set (formFields st). ff_type f \<noteq> FileField \<longrightarrow>
           obj_get (formData (set_show True st)) (ff_name f) = Some (Str (default_or_empty f))))
   \<and> (\<not> shown st' \<and> formFields st' = formFields st \<longrightarrow>
        formData (set_show True st') = formData (set_show True st)
        \<and> fileData (set_show True st') = fileData (set_show True st)
        \<and> errors (set_show True st') = errors (set_show True st))"
proof -
  note open_st = set_show_True [OF hidden]
  have k1: "set (obj_keys (formData (set_show True st)))
        = ff_name ` {f \<in> set (formFields st). ff_type f \<noteq> FileField}"
    using init_form_keys [OF names, of "([], [] :: 'f list obj)"] by (simp add: open_st obj_keys_def)
  have k2: "set (obj_keys (fileData (set_show True st)))
        = ff_name ` {f \<in> set (formFields st). ff_type f = FileField}"
    using init_file_keys [OF names, of "([], [])"] by (simp add: open_st obj_keys_def)
  have v1: "\<forall>f \<in> set (formFields st). ff_type f = FileField \<longrightarrow>
         obj_get (fileData (set_show True st)) (ff_name f) = Some []"
    by (simp add: open_st init_file_values [OF names])
  have v2: "\<forall>f \<in> set (formFields st). ff_type f \<noteq> FileField \<longrightarrow>
         (\<exists>g \<in> set (formFields st). ff_type g \<noteq> FileField \<and> ff_name g = ff_name f
            \<and> obj_get (formData (set_show True st)) (ff_name f) = Some (Str (default_or_empty g)))"
    using init_form_values [OF names, of _ "([], [] :: 'f list obj)"] by (simp add: open_st)
  have v3: "\<forall>f \<in> set (formFields st). ff_type f \<noteq> FileField \<longrightarrow>
           obj_get (formData (set_show True st)) (ff_name f) = Some (Str (default_or_empty f))"
    if d: "distinct (map ff_name (formFields st))"
  proof (intro ballI impI)
    fix f assume f: "f \<in> set (formFields st)" "ff_type f \<noteq> FileField"
    with v2 obtain g where g: "g \<in> set (formFields st)" "ff_name g = ff_name f"
      "obj_get (formData (set_show True st)) (ff_name f) = Some (Str (default_or_empty g))"
      by blast
    from d have "inj_on ff_name (set (formFields st))" by (simp add: distinct_map)
    with f(1) g(1,2) have "g = f" by (auto dest: inj_onD)
    with g(3) show "obj_get (formData (set_show True st)) (ff_name f) = Some (Str (default_or_empty f))"
      by simp
  qed
  have p: "formData (set_show True st') = formData (set_show True st)
        \<and> fileData (set_show True st') = fileData (set_show True st)
        \<and> errors (set_show True st') = errors (set_show True st)"
    if "\<not> shown st'" "formFields st' = formFields st"
    using that by (simp add: open_st set_show_True)
  show ?thesis
    using open_st(3) k1 k2 v1 v2 v3 p by (intro conjI impI) simp_all
qed

lemmas modal_eval = set_show_def init_form_def init_field_def obj_set_def obj_keys_def obj_get_def
  array_index_def is_digit_def default_or_empty_def text_field_def file_field_def number_field_def
  new_modal_def ascii_def input_text_def input_number_def validateForm_def validate_field_def
  blank_value_def no_files_def required_message_def trim_def is_ws_def field_fails_def
  hasFileFields_def

text \<open>
  A hidden modal that still holds an old value, a selected file and an error is opened:
  the text field holds its default, the file field no file, and no error is left.
\<close>

theorem modal_open_resets_example:
  "\<not> shown
        ((new_modal (ascii ''m'')
            [(text_field ''x'' ''X'' True)\<lparr>ff_default := Some (ascii ''5'')\<rparr>,
             file_field ''f'' ''F'' False] :: nat modal)
         \<lparr>formData := [(ascii ''x'', Str (ascii ''old''))], fileData := [(ascii ''f'', [7])],
          errors := [(ascii ''x'', ascii ''X is required'')]\<rparr>)
   \<and> distinct (map ff_name [(text_field ''x'' ''X'' True)\<lparr>ff_default := Some (ascii ''5'')\<rparr>,
                          file_field ''f'' ''F'' False])
   \<and> formData (set_show True
        ((new_modal (ascii ''m'')
            [(text_field ''x'' ''X'' True)\<lparr>ff_default := Some (ascii ''5'')\<rparr>,
             file_field ''f'' ''F'' False] :: nat modal)
         \<lparr>formData := [(ascii ''x'', Str (ascii ''old''))], fileData := [(ascii ''f'', [7])],
          errors := [(ascii ''x'', ascii ''X is required'')]\<rparr>))
       = [(ascii ''x'', Str (ascii ''5''))]
   \<and> fileData (set_show True
        ((new_modal (ascii ''m'')
            [(text_field ''x'' ''X'' True)\<lparr>ff_default := Some (ascii ''5'')\<rparr>,
             file_field ''f'' ''F'' False] :: nat modal)
         \<lparr>formData := [(ascii ''x'', Str (ascii ''old''))], fileData := [(ascii ''f'', [7])],
          errors := [(ascii ''x'', ascii ''X is required'')]\<rparr>))
       = [(ascii ''f'', [])]
   \<and> errors (set_show True
        ((new_modal (ascii ''m'')
            [(text_field ''x'' ''X'' True)\<lparr>ff_default := Some (ascii ''5'')\<rparr>,
             file_field ''f'' ''F'' False] :: nat modal)
         \<lparr>formData := [(ascii ''x'', Str (ascii ''old''))], fileData := [(ascii ''f'', [7])],
          errors := [(ascii ''x'', ascii ''X is required'')]\<rparr>))
       = []"
proof -
  let ?st = "(new_modal (ascii ''m'')
            [(text_field ''x'' ''X'' True)\<lparr>ff_default := Some (ascii ''5'')\<rparr>,
             file_field ''f'' ''F'' False] :: nat modal)
         \<lparr>formData := [(ascii ''x'', Str (ascii ''old''))], fileData := [(ascii ''f'', [7])],
          errors := [(ascii ''x'', ascii ''X is required'')]\<rparr>"
  have d: "distinct (map ff_name [(text_field ''x'' ''X'' True)\<lparr>ff_default := Some (ascii ''5'')\<rparr>,
                          file_field ''f'' ''F'' False])"
    by (simp add: modal_eval)
  have a: "formData (set_show True ?st) = [(ascii ''x'', Str (ascii ''5''))]"
    by (simp add: modal_eval)
  have b: "fileData (set_show True ?st) = [(ascii ''f'', [])]"
    by (simp add: modal_eval)
  have h: "\<not> shown ?st"
    by (simp add: new_modal_def)
  have n: "\<forall>f \<in> set (formFields ?st). ff_name f \<noteq> ascii ''__proto__''"
    by (simp add: modal_eval)
  have e: "errors (set_show True ?st) = []"
    using modal_open_resets [OF h n, of ?st] by (elim conjE)
  show ?thesis using h d a b e by (intro conjI)
qed

text \<open>
  Claim C6, at a schema whose one field, a text field with the default \<open>x\<close>, is
  named \<open>__proto__\<close>. The modal is hidden and is opened. The reactive block assigns
  \<open>formData['__proto__'] = 'x'\<close>, which creates no property: \<open>formData\<close> is the
  empty object and holds no value under the field's name, where the claim has the
  field's default.
\<close>

theorem modal_open_proto_field:
  "\<not> shown (new_modal (ascii ''m'')
        [(text_field ''__proto__'' ''Prototype'' False)\<lparr>ff_default := Some (ascii ''x'')\<rparr>] :: nat modal)
   \<and> ff_type ((text_field ''__proto__'' ''Prototype'' False)\<lparr>ff_default := Some (ascii ''x'')\<rparr>) \<noteq> FileField
   \<and> default_or_empty ((text_field ''__proto__'' ''Prototype'' False)\<lparr>ff_default := Some (ascii ''x'')\<rparr>)
       = ascii ''x''
   \<and> formData (set_show True (new_modal (ascii ''m'')
        [(text_field ''__proto__'' ''Prototype'' False)\<lparr>ff_default := Some (ascii ''x'')\<rparr>] :: nat modal))
       = []
   \<and> obj_get (formData (set_show True (new_modal (ascii ''m'')
        [(text_field ''__proto__'' ''Prototype'' False)\<lparr>ff_default := Some (ascii ''x'')\<rparr>] :: nat modal)))
        (ff_name ((text_field ''__proto__'' ''Prototype'' False)\<lparr>ff_default := Some (ascii ''x'')\<rparr>))
       \<noteq> Some (Str (ascii ''x''))"
proof -
  let ?f = "(text_field ''__proto__'' ''Prototype'' False)\<lparr>ff_default := Some (ascii ''x'')\<rparr>"
  let ?st = "new_modal (ascii ''m'') [?f] :: nat modal"
  have h: "\<not> shown ?st" by (simp add: new_modal_def)
  have t: "ff_type ?f \<noteq> FileField" by (simp add: text_field_def)
  have d: "default_or_empty ?f = ascii ''x''"
    by (simp add: default_or_empty_def text_field_def ascii_def)
  have n: "ff_name ?f = ascii ''__proto__''" by (simp add: text_field_def)
  have a: "formData (set_show True ?st) = []"
    by (simp add: set_show_def init_form_def init_field_def new_modal_def n t obj_set_proto)
  show ?thesis
    using h t d a by (simp add: obj_get_def)
qed

lemma blank_value_cases: "blank_value st f = Inl TypeError \<or> (\<exists>b. blank_value st f = Inr b)"
  by (auto simp: blank_value_def split: option.splits jsval.splits)

lemma validate_field_ok:
  assumes "ff_required f \<and> ff_type f \<noteq> FileField \<longrightarrow> blank_value st f \<noteq> Inl TypeError"
  shows "validate_field st acc f =
     Inr (if field_fails st f then (obj_set (fst acc) (ff_name f) (required_message f), False)
          else acc)"
proof (cases "ff_required f \<and> ff_type f \<noteq> FileField")
  case True
  with assms blank_value_cases [of st f] obtain b where b: "blank_value st f = Inr b" by auto
  with True show ?thesis
    by (cases acc) (simp add: validate_field_def field_fails_def)
next
  case False
  then show ?thesis
    by (cases acc) (auto simp: validate_field_def field_fails_def)
qed

lemma validate_loop_result:
  assumes "\<forall>f \<in> set fs. ff_required f \<and> ff_type f \<noteq> FileField \<longrightarrow> blank_value st f \<noteq> Inl TypeError"
  shows "snd (validate_loop st fs acc) = Inr (snd acc \<and> (\<forall>f \<in> set fs. \<not> field_fails st f))"
  using assms
proof (induction fs arbitrary: acc)
  case Nil
  show ?case by simp
next
  case (Cons f fs)
  from Cons.prems have ok: "ff_required f \<and> ff_type f \<noteq> FileField \<longrightarrow> blank_value st f \<noteq> Inl TypeError"
    and rest: "\<forall>f \<in> set fs. ff_required f \<and> ff_type f \<noteq> FileField \<longrightarrow> blank_value st f \<noteq> Inl TypeError"
    by simp_all
  show ?case
    by (simp add: validate_field_ok [OF ok] Cons.IH [OF rest])
qed

lemma validate_loop_keys:
  assumes "\<forall>f \<in> set fs. ff_required f \<and> ff_type f \<noteq> FileField \<longrightarrow> blank_value st f \<noteq> Inl TypeError"
    and "\<forall>f \<in> set fs. ff_name f \<noteq> ascii ''__proto__''"
  shows "set (obj_keys (fst (validate_loop st fs acc))) =
           set (obj_keys (fst acc)) \<union> ff_name ` {f \<in> set fs. field_fails st f}"
  using assms
proof (induction fs arbitrary: acc)
  case Nil
  show ?case by simp
next
  case (Cons f fs)
  from Cons.prems have ok: "ff_required f \<and> ff_type f \<noteq> FileField \<longrightarrow> blank_value st f \<noteq> Inl TypeError"
    and rest: "\<forall>f \<in> set fs. ff_required f \<and> ff_type f \<noteq> FileField \<longrightarrow> blank_value st f \<noteq> Inl TypeError"
    and n: "ff_name f \<noteq> ascii ''__proto__''"
    and np: "\<forall>f \<in> set fs. ff_name f \<noteq> ascii ''__proto__''"
    by simp_all
  show ?case
  proof (cases "field_fails st f")
    case True
    then show ?thesis
      by (auto simp: validate_field_ok [OF ok] Cons.IH [OF rest np] keys_obj_set [OF n])
  next
    case False
    then show ?thesis
      by (auto simp: validate_field_ok [OF ok] Cons.IH [OF rest np])
  qed
qed

lemma validate_loop_other:
  assumes "\<forall>f \<in> set fs. ff_required f \<and> ff_type f \<noteq> FileField \<longrightarrow> blank_value st f \<noteq> Inl TypeError"
    and "\<forall>g \<in> set fs. field_fails st g \<longrightarrow> ff_name g \<noteq> k"
    and "\<forall>f \<in> set fs. ff_name f \<noteq> ascii ''__proto__''"
  shows "obj_get (fst (validate_loop st fs acc)) k = obj_get (fst acc) k"
  using assms
proof (induction fs arbitrary: acc)
  case Nil
  show ?case by simp
next
  case (Cons f fs)
  from Cons.prems have ok: "ff_required f \<and> ff_type f \<noteq> FileField \<longrightarrow> blank_value st f \<noteq> Inl TypeError"
    and rest: "\<forall>f \<in> set fs. ff_required f \<and> ff_type f \<noteq> FileField \<longrightarrow> blank_value st f \<noteq> Inl TypeError"
    and nf: "field_fails st f \<longrightarrow> ff_name f \<noteq> k"
    and nr: "\<forall>g \<in> set fs. field_fails st g \<longrightarrow> ff_name g \<noteq> k"
    and n: "ff_name f \<noteq> ascii ''__proto__''"
    and np: "\<forall>f \<in> set fs. ff_name f \<noteq> ascii ''__proto__''"
    by simp_all
  show ?case
    using nf by (cases "field_fails st f")
      (auto simp: validate_field_ok [OF ok] Cons.IH [OF rest nr np] obj_get_obj_set [OF n])
qed

lemma validate_loop_values:
  assumes "\<forall>f \<in> set fs. ff_required f \<and> ff_type f \<noteq> FileField \<longrightarrow> blank_value st f \<noteq> Inl TypeError"
    and "f \<in> set fs" and "field_fails st f"
    and "\<forall>f \<in> set fs. ff_name f \<noteq> ascii ''__proto__''"
  shows "\<exists>g \<in> set fs. field_fails st g \<and> ff_name g = ff_name f
           \<and> obj_get (fst (validate_loop st fs acc)) (ff_name f) = Some (required_message g)"
  using assms
proof (induction fs arbitrary: acc f)
  case Nil
  then show ?case by simp
next
  case (Cons h fs)
  from Cons.prems(1) have ok: "ff_required h \<and> ff_type h \<noteq> FileField \<longrightarrow> blank_value st h \<noteq> Inl TypeError"
    and rest: "\<forall>f \<in> set fs. ff_required f \<and> ff_type f \<noteq> FileField \<longrightarrow> blank_value st f \<noteq> Inl TypeError"
    by simp_all
  from Cons.prems(4) have n: "ff_name h \<noteq> ascii ''__proto__''"
    and np: "\<forall>f \<in> set fs. ff_name f \<noteq> ascii ''__proto__''"
    by simp_all
  let ?acc' = "if field_fails st h then (obj_set (fst acc) (ff_name h) (required_message h), False) else acc"
  have step: "validate_loop st (h # fs) acc = validate_loop st fs ?acc'"
    by (simp add: validate_field_ok [OF ok])
  show ?case
  proof (cases "\<exists>g \<in> set fs. field_fails st g \<and> ff_name g = ff_name f")
    case True
    then obtain g0 where g0: "g0 \<in> set fs" "field_fails st g0" "ff_name g0 = ff_name f" by blast
    from Cons.IH [OF rest g0(1,2) np, of ?acc'] obtain g where
      "g \<in> set fs" "field_fails st g" "ff_name g = ff_name g0"
      "obj_get (fst (validate_loop st fs ?acc')) (ff_name g0) = Some (required_message g)"
      by blast
    with g0(3) step show ?thesis by auto
  next
    case False
    with Cons.prems(2,3) have fh: "f = h" by auto
    from False have nr: "\<forall>g \<in> set fs. field_fails st g \<longrightarrow> ff_name g \<noteq> ff_name f" by blast
    have "obj_get (fst (validate_loop st fs ?acc')) (ff_name f) = obj_get (fst ?acc') (ff_name f)"
      by (rule validate_loop_other [OF rest nr np])
    also have "\<dots> = Some (required_message h)"
      using fh Cons.prems(3) by (simp add: obj_get_obj_set [OF n])
    finally show ?thesis
      using step fh Cons.prems(3) by auto
  qed
qed

lemma validateForm_parts:
  "errors (fst (validateForm st)) = fst (validate_loop st (formFields st) ([], True))"
  "snd (validateForm st) = snd (validate_loop st (formFields st) ([], True))"
  "formData (fst (validateForm st)) = formData st"
  "fileData (fst (validateForm st)) = fileData st"
  "formFields (fst (validateForm st)) = formFields st"
  "modelId (fst (validateForm st)) = modelId st"
  "chatId (fst (validateForm st)) = chatId st"
  by (simp_all add: validateForm_def split_beta)

lemma chat_or_undefined_idem:
  "(case chat_or_undefined c of None \<Rightarrow> None | Some x \<Rightarrow> if x = [] then None else Some x)
     = chat_or_undefined c"
  by (simp add: chat_or_undefined_def split: option.splits)

lemma handleSubmit_sent:
  "sent (fst (snd (handleSubmit w token st))) =
     (if snd (validateForm st) = Inr True then
        sent w @ [if hasFileFields st then
          PostInvokeWithFiles token (modelId st) (formData st) (concat (map snd (fileData st)))
            (chat_or_undefined (chatId st))
        else PostInvoke token (modelId st) (formData st) (chat_or_undefined (chatId st))]
      else sent w)"
proof -
  obtain st1 r where vf: "validateForm st = (st1, r)" by (cases "validateForm st")
  then have st1: "st1 = fst (validateForm st)" and r: "snd (validateForm st) = r" by simp_all
  have p: "formData st1 = formData st" "fileData st1 = fileData st" "modelId st1 = modelId st"
    "chatId st1 = chatId st" "formFields st1 = formFields st"
    by (simp_all add: st1 validateForm_parts)
  show ?thesis
  proof (cases r)
    case (Inl e)
    with vf r show ?thesis by (simp add: handleSubmit_def)
  next
    case (Inr v)
    show ?thesis
    proof (cases v)
      case False
      with Inr vf r show ?thesis by (simp add: handleSubmit_def)
    next
      case True
      have h: "hasFileFields (st1\<lparr>loading := True\<rparr>) = hasFileFields st"
        by (simp add: hasFileFields_def p)
      show ?thesis
      proof (cases "hasFileFields st")
        case hf: True
        with True Inr h show ?thesis
          unfolding r
          by (simp add: handleSubmit_def vf invokeWebhookWithFiles_def fetch_def Let_def split_beta
              chat_or_undefined_idem p)
      next
        case hf: False
        with True Inr h show ?thesis
          unfolding r
          by (simp add: handleSubmit_def vf invokeWebhook_def fetch_def Let_def split_beta p)
      qed
    qed
  qed
qed

lemma text_valued_ok:
  "text_valued st \<Longrightarrow>
     \<forall>f \<in> set (formFields st). ff_required f \<and> ff_type f \<noteq> FileField \<longrightarrow> blank_value st f \<noteq> Inl TypeError"
  by (simp add: text_valued_def)

lemma plain_names_proto:
  "plain_names fs \<Longrightarrow> \<forall>f \<in> set fs. ff_name f \<noteq> ascii ''__proto__''"
  using object_prototype_members_names(2) by (auto simp: plain_names_def)

lemma validateForm_error_keys:
  assumes "text_valued st" and "plain_names (formFields st)"
  shows "set (obj_keys (errors (fst (validateForm st)))) =
     ff_name ` {f \<in> set (formFields st). field_fails st f}"
  using validate_loop_keys [OF text_valued_ok [OF assms(1)] plain_names_proto [OF assms(2)], of "([], True)"]
  by (simp add: validateForm_parts obj_keys_def)

lemma validateForm_valid:
  assumes "text_valued st"
  shows "snd (validateForm st) = Inr (\<forall>f \<in> set (formFields st). \<not> field_fails st f)"
  using validate_loop_result [OF text_valued_ok [OF assms], of "([], True)"]
  by (simp add: validateForm_parts)

lemma validateForm_errors_empty:
  assumes "text_valued st" and "plain_names (formFields st)"
  shows "errors (fst (validateForm st)) = [] \<longleftrightarrow> (\<forall>f \<in> set (formFields st). \<not> field_fails st f)"
proof -
  have "errors (fst (validateForm st)) = [] \<longleftrightarrow> set (obj_keys (errors (fst (validateForm st)))) = {}"
    by (simp add: obj_keys_def)
  also have "\<dots> \<longleftrightarrow> (\<forall>f \<in> set (formFields st). \<not> field_fails st f)"
    unfolding validateForm_error_keys [OF assms] by auto
  finally show ?thesis .
qed

text \<open>
  Validation when no required value is a number and no field is named as a member of
  \<open>Object.prototype\<close>. Every field that fails has an entry in
  the error map and no other name has one; the entry is the label of a failing field of
  that name followed by \<open> is required\<close>, the field's own label when the names are
  distinct; validation succeeds exactly when the error map is empty; a non-empty error
  map sends nothing, and when no field fails one request is sent.
\<close>

theorem validation_of_text_values:
  fixes st :: "'f modal"
  assumes tv: "text_valued st" and pn: "plain_names (formFields st)"
  shows "set (obj_keys (errors (fst (validateForm st))))
           = ff_name ` {f \<in> set (formFields st). field_fails st f}
   \<and> (\<forall>f \<in> set (formFields st). field_fails st f \<longrightarrow>
         (\<exists>g \<in> set (formFields st). field_fails st g \<and> ff_name g = ff_name f
            \<and> obj_get (errors (fst (validateForm st))) (ff_name f)
                 = Some (ff_label g @ ascii '' is required'')))
   \<and> (distinct (map ff_name (formFields st)) \<longrightarrow>
        (\<forall>f \<in> set (formFields st). field_fails st f \<longrightarrow>
           obj_get (errors (fst (validateForm st))) (ff_name f)
             = Some (ff_label f @ ascii '' is required'')))
   \<and> snd (validateForm st) = Inr (errors (fst (validateForm st)) = [])
   \<and> (errors (fst (validateForm st)) \<noteq> [] \<longrightarrow>
        sent (fst (snd (handleSubmit w token st))) = sent w)
   \<and> ((\<forall>f \<in> set (formFields st). \<not> field_fails st f) \<longrightarrow>
        errors (fst (validateForm st)) = []
        \<and> length (sent (fst (snd (handleSubmit w token st)))) = length (sent w) + 1)"
proof -
  have v2: "\<forall>f \<in> set (formFields st). field_fails st f \<longrightarrow>
         (\<exists>g \<in> set (formFields st). field_fails st g \<and> ff_name g = ff_name f
            \<and> obj_get (errors (fst (validateForm st))) (ff_name f)
                 = Some (ff_label g @ ascii '' is required''))"
    using validate_loop_values [OF text_valued_ok [OF tv] _ _ plain_names_proto [OF pn], of _ "([], True)"]
    by (simp add: validateForm_parts required_message_def)
  have v3: "\<forall>f \<in> set (formFields st). field_fails st f \<longrightarrow>
           obj_get (errors (fst (validateForm st))) (ff_name f)
             = Some (ff_label f @ ascii '' is required'')"
    if d: "distinct (map ff_name (formFields st))"
  proof (intro ballI impI)
    fix f assume f: "f \<in> set (formFields st)" "field_fails st f"
    with v2 obtain g where g: "g \<in> set (formFields st)" "ff_name g = ff_name f"
      "obj_get (errors (fst (validateForm st))) (ff_name f) = Some (ff_label g @ ascii '' is required'')"
      by blast
    from d have "inj_on ff_name (set (formFields st))" by (simp add: distinct_map)
    with f(1) g(1,2) have "g = f" by (auto dest: inj_onD)
    with g(3) show "obj_get (errors (fst (validateForm st))) (ff_name f)
                      = Some (ff_label f @ ascii '' is required'')"
      by simp
  qed
  have e: "snd (validateForm st) = Inr (errors (fst (validateForm st)) = [])"
    by (simp add: validateForm_valid [OF tv] validateForm_errors_empty [OF tv pn])
  have b: "sent (fst (snd (handleSubmit w token st))) = sent w"
    if "errors (fst (validateForm st)) \<noteq> []"
    using that e by (simp add: handleSubmit_sent)
  have c: "errors (fst (validateForm st)) = []
        \<and> length (sent (fst (snd (handleSubmit w token st)))) = length (sent w) + 1"
    if "\<forall>f \<in> set (formFields st). \<not> field_fails st f"
  proof -
    from that have z: "errors (fst (validateForm st)) = []"
      by (simp add: validateForm_errors_empty [OF tv pn])
    with e show ?thesis by (simp add: handleSubmit_sent)
  qed
  show ?thesis
    using validateForm_error_keys [OF tv pn] v2 v3 e b c by (intro conjI impI) simp_all
qed

text \<open>
  Claim C5 says that submission is blocked exactly when the error map is not empty and
  that one network call is issued when all required fields are populated. The code at a
  schema with one required number field into which the user has entered \<open>2\<close>: the bound
  value is the number \<open>2\<close>, the field does not fail, yet \<open>validateForm\<close> throws
  calling \<open>trim\<close> on the number, the error map stays empty, the promise of
  \<open>handleSubmit\<close> rejects and no request is sent.
\<close>

theorem validateForm_number_value:
  "\<not> field_fails
       (input_number (ascii ''quantity'') (Some 2)
          (set_show True (new_modal (ascii ''m'') [number_field ''quantity'' ''Quantity'' True])) :: nat modal)
       (number_field ''quantity'' ''Quantity'' True)
   \<and> validateForm
       (input_number (ascii ''quantity'') (Some 2)
          (set_show True (new_modal (ascii ''m'') [number_field ''quantity'' ''Quantity'' True])) :: nat modal)
     = (input_number (ascii ''quantity'') (Some 2)
          (set_show True (new_modal (ascii ''m'') [number_field ''quantity'' ''Quantity'' True])),
        Inl TypeError)
   \<and> handleSubmit (answering (Inr (json_response True (Obj [(ascii ''success'', Bool True)]))))
       (ascii ''token'')
       (input_number (ascii ''quantity'') (Some 2)
          (set_show True (new_modal (ascii ''m'') [number_field ''quantity'' ''Quantity'' True])) :: nat modal)
     = (input_number (ascii ''quantity'') (Some 2)
          (set_show True (new_modal (ascii ''m'') [number_field ''quantity'' ''Quantity'' True])),
        answering (Inr (json_response True (Obj [(ascii ''success'', Bool True)]))),
        [Rejected TypeError])"
proof -
  let ?st = "input_number (ascii ''quantity'') (Some 2)
          (set_show True (new_modal (ascii ''m'') [number_field ''quantity'' ''Quantity'' True])) :: nat modal"
  have a: "\<not> field_fails ?st (number_field ''quantity'' ''Quantity'' True)"
    by (simp add: modal_eval)
  have b: "validateForm ?st = (?st, Inl TypeError)"
    by (simp add: modal_eval)
  show ?thesis
    using a b by (simp add: handleSubmit_def)
qed

lemma validation_scenario:
  "text_valued (set_show True (new_modal (ascii ''m'') [text_field ''x'' ''X'' True]) :: nat modal)
   \<and> errors (fst (validateForm
        (set_show True (new_modal (ascii ''m'') [text_field ''x'' ''X'' True]) :: nat modal)))
       = [(ascii ''x'', ascii ''X is required'')]
   \<and> sent (fst (snd (handleSubmit
        (answering (Inr (json_response True (Obj [(ascii ''success'', Bool True), (ascii ''message'', Str (ascii ''ok''))]))))
        (ascii ''token'')
        (set_show True (new_modal (ascii ''m'') [text_field ''x'' ''X'' True]) :: nat modal)))) = []
   \<and> handleSubmit
        (answering (Inr (json_response True (Obj [(ascii ''success'', Bool True), (ascii ''message'', Str (ascii ''ok''))]))))
        (ascii ''token'')
        (input_text (ascii ''x'') (ascii ''5'')
           (set_show True (new_modal (ascii ''m'') [text_field ''x'' ''X'' True])) :: nat modal)
       = ((new_modal (ascii ''m'') [text_field ''x'' ''X'' True])
             \<lparr>formData := [(ascii ''x'', Str (ascii ''5''))]\<rparr>,
          \<lparr>respond = (\<lambda>req. Inr (json_response True (Obj [(ascii ''success'', Bool True), (ascii ''message'', Str (ascii ''ok''))]))),
           sent = [PostInvoke (ascii ''token'') (ascii ''m'') [(ascii ''x'', Str (ascii ''5''))] None]\<rparr>,
          [DispatchSuccess (Obj [(ascii ''success'', Bool True), (ascii ''message'', Str (ascii ''ok''))]),
           ToastSuccess (Str (ascii ''ok''))])"
proof -
  let ?w = "answering (Inr (json_response True (Obj [(ascii ''success'', Bool True), (ascii ''message'', Str (ascii ''ok''))]))) :: nat world"
  let ?st0 = "set_show True (new_modal (ascii ''m'') [text_field ''x'' ''X'' True]) :: nat modal"
  have t: "text_valued ?st0" by (simp add: text_valued_def modal_eval)
  have n: "plain_names (formFields ?st0)"
    by (simp add: plain_names_def object_prototype_members_def modal_eval)
  have e0: "errors (fst (validateForm ?st0)) = [(ascii ''x'', ascii ''X is required'')]"
    by (simp add: modal_eval)
  have s0: "sent (fst (snd (handleSubmit ?w (ascii ''token'') ?st0))) = []"
    using validation_of_text_values [OF t n, of ?w "ascii ''token''"] e0 by (simp add: answering_def)
  have s1: "handleSubmit ?w (ascii ''token'') (input_text (ascii ''x'') (ascii ''5'') ?st0)
       = ((new_modal (ascii ''m'') [text_field ''x'' ''X'' True])
             \<lparr>formData := [(ascii ''x'', Str (ascii ''5''))]\<rparr>,
          \<lparr>respond = (\<lambda>req. Inr (json_response True (Obj [(ascii ''success'', Bool True), (ascii ''message'', Str (ascii ''ok''))]))),
           sent = [PostInvoke (ascii ''token'') (ascii ''m'') [(ascii ''x'', Str (ascii ''5''))] None]\<rparr>,
          [DispatchSuccess (Obj [(ascii ''success'', Bool True), (ascii ''message'', Str (ascii ''ok''))]),
           ToastSuccess (Str (ascii ''ok''))])"
    by (simp add: handleSubmit_def modal_eval invokeWebhook_def fetch_def answering_def
        then_json_def json_response_def invoke_result_def on_response_def js_or_def
        chat_or_undefined_def Let_def)
  show ?thesis using t e0 s0 s1 by (intro conjI)
qed



end
